theory Spec2Isabelle
  imports Main "HOL-Library.Word"
begin

section \<open>Pixels, the 4-pixel vector Sk4px and its 16-bit companion\<close>

text \<open>
  \<^verbatim>\<open>Sk4pxXfermode.h\<close> writes every transfer mode as an expression over \<^verbatim>\<open>Sk4px\<close>, a
  vector of four premultiplied 32-bit pixels (16 byte lanes), and \<^verbatim>\<open>Sk4px::Wide\<close>, the
  same 16 lanes widened to 16 bits. A pixel has the channels B, G, R, A; a vector has
  four pixels. Both containers are polymorphic in the lane type: bytes for
  \<^verbatim>\<open>Sk4px\<close>, 16-bit words for \<^verbatim>\<open>Wide\<close>, booleans for the masks that a comparison gives.
\<close>

type_synonym u8 = "8 word"
type_synonym u16 = "16 word"

datatype 'a px = Px (chB: 'a) (chG: 'a) (chR: 'a) (chA: 'a)

datatype 'a x4 = X4 (lane0: 'a) (lane1: 'a) (lane2: 'a) (lane3: 'a)

type_synonym Sk4px = "u8 px x4"
type_synonym Wide = "u16 px x4"
type_synonym Mask = "bool px x4"

datatype chan = B | G | R | A

datatype lane_ix = L0 | L1 | L2 | L3

fun ch :: "chan \<Rightarrow> 'a px \<Rightarrow> 'a" where
  "ch B p = chB p"
| "ch G p = chG p"
| "ch R p = chR p"
| "ch A p = chA p"

fun lane :: "lane_ix \<Rightarrow> 'a x4 \<Rightarrow> 'a" where
  "lane L0 v = lane0 v"
| "lane L1 v = lane1 v"
| "lane L2 v = lane2 v"
| "lane L3 v = lane3 v"

text \<open>The byte of vector \<open>v\<close> in pixel \<open>l\<close>, channel \<open>c\<close>.\<close>

definition at :: "'a px x4 \<Rightarrow> lane_ix \<Rightarrow> chan \<Rightarrow> 'a" where
  "at v l c = ch c (lane l v)"

text \<open>Lane-wise lifting of an operation on single lanes to whole vectors.\<close>

definition px1 :: "('a \<Rightarrow> 'b) \<Rightarrow> 'a px \<Rightarrow> 'b px" where
  "px1 f p = Px (f (chB p)) (f (chG p)) (f (chR p)) (f (chA p))"

definition px2 :: "('a \<Rightarrow> 'b \<Rightarrow> 'c) \<Rightarrow> 'a px \<Rightarrow> 'b px \<Rightarrow> 'c px" where
  "px2 f p q = Px (f (chB p) (chB q)) (f (chG p) (chG q)) (f (chR p) (chR q)) (f (chA p) (chA q))"

definition px3 :: "('a \<Rightarrow> 'b \<Rightarrow> 'c \<Rightarrow> 'd) \<Rightarrow> 'a px \<Rightarrow> 'b px \<Rightarrow> 'c px \<Rightarrow> 'd px" where
  "px3 f p q r = Px (f (chB p) (chB q) (chB r)) (f (chG p) (chG q) (chG r))
                    (f (chR p) (chR q) (chR r)) (f (chA p) (chA q) (chA r))"

definition vec1 :: "('a \<Rightarrow> 'b) \<Rightarrow> 'a x4 \<Rightarrow> 'b x4" where
  "vec1 f v = X4 (f (lane0 v)) (f (lane1 v)) (f (lane2 v)) (f (lane3 v))"

definition vec2 :: "('a \<Rightarrow> 'b \<Rightarrow> 'c) \<Rightarrow> 'a x4 \<Rightarrow> 'b x4 \<Rightarrow> 'c x4" where
  "vec2 f v w = X4 (f (lane0 v) (lane0 w)) (f (lane1 v) (lane1 w))
                   (f (lane2 v) (lane2 w)) (f (lane3 v) (lane3 w))"

definition vec3 :: "('a \<Rightarrow> 'b \<Rightarrow> 'c \<Rightarrow> 'd) \<Rightarrow> 'a x4 \<Rightarrow> 'b x4 \<Rightarrow> 'c x4 \<Rightarrow> 'd x4" where
  "vec3 f v w u = X4 (f (lane0 v) (lane0 w) (lane0 u)) (f (lane1 v) (lane1 w) (lane1 u))
                     (f (lane2 v) (lane2 w) (lane2 u)) (f (lane3 v) (lane3 w) (lane3 u))"

definition lanes1 :: "('a \<Rightarrow> 'b) \<Rightarrow> 'a px x4 \<Rightarrow> 'b px x4" where
  "lanes1 f = vec1 (px1 f)"

definition lanes2 :: "('a \<Rightarrow> 'b \<Rightarrow> 'c) \<Rightarrow> 'a px x4 \<Rightarrow> 'b px x4 \<Rightarrow> 'c px x4" where
  "lanes2 f = vec2 (px2 f)"

definition lanes3 ::
  "('a \<Rightarrow> 'b \<Rightarrow> 'c \<Rightarrow> 'd) \<Rightarrow> 'a px x4 \<Rightarrow> 'b px x4 \<Rightarrow> 'c px x4 \<Rightarrow> 'd px x4" where
  "lanes3 f = vec3 (px3 f)"

text \<open>A pixel is premultiplied when no colour channel exceeds its alpha.\<close>

definition premul :: "u8 px \<Rightarrow> bool" where
  "premul p \<longleftrightarrow> chB p \<le> chA p \<and> chG p \<le> chA p \<and> chR p \<le> chA p"

definition premul4 :: "Sk4px \<Rightarrow> bool" where
  "premul4 v \<longleftrightarrow> premul (lane0 v) \<and> premul (lane1 v) \<and> premul (lane2 v) \<and> premul (lane3 v)"

section \<open>The operations of Sk4px\<close>

text \<open>
  The class \<^verbatim>\<open>Sk4px\<close> comes from \<^verbatim>\<open>Sk4px.h\<close>, which the file includes and which is not
  among the sources at hand. Its operations are modelled from the contract that the
  specification states for them, one definition per operation. A mask, as a comparison
  returns it, is a vector of booleans.
\<close>

text \<open>
  Modelled from the spec: \<^verbatim>\<open>Sk4px::DupPMColor\<close>, missing from the sources, builds a
  vector from a single replicated pixel. The argument \<^verbatim>\<open>0\<close> of the source is the pixel
  with all four bytes zero, \<open>Px 0 0 0 0\<close>.
\<close>

definition DupPMColor :: "u8 px \<Rightarrow> Sk4px" where
  "DupPMColor c = X4 c c c c"

text \<open>
  Modelled from the spec: \<^verbatim>\<open>Sk4px::alphas\<close>, missing from the sources: every byte of a
  pixel becomes the alpha byte of that pixel.
\<close>

definition alphas :: "Sk4px \<Rightarrow> Sk4px" where
  "alphas = vec1 (\<lambda>p. Px (chA p) (chA p) (chA p) (chA p))"

text \<open>Modelled from the spec: \<^verbatim>\<open>Sk4px::inv\<close>, missing from the sources: per-byte \<open>255 - x\<close>.\<close>

definition inv :: "Sk4px \<Rightarrow> Sk4px" where
  "inv = lanes1 (\<lambda>x. 255 - x)"

text \<open>
  Modelled from the spec: \<^verbatim>\<open>Sk4px::zeroAlphas\<close>, missing from the sources, sets the
  alpha byte of every pixel to 0.
\<close>

definition zeroAlphas :: "Sk4px \<Rightarrow> Sk4px" where
  "zeroAlphas = vec1 (\<lambda>p. Px (chB p) (chG p) (chR p) 0)"

text \<open>
  Modelled from the spec: \<^verbatim>\<open>Sk4px::zeroColors\<close>, missing from the sources, sets the
  three colour bytes of every pixel to 0.
\<close>

definition zeroColors :: "Sk4px \<Rightarrow> Sk4px" where
  "zeroColors = vec1 (\<lambda>p. Px 0 0 0 (chA p))"

text \<open>
  Modelled from the spec: the operators \<open>+\<close> and \<open>-\<close> of \<^verbatim>\<open>Sk4px\<close>, missing from the
  sources. They add and subtract in the 8-bit lanes, where the result wraps around.
\<close>

definition add :: "Sk4px \<Rightarrow> Sk4px \<Rightarrow> Sk4px" where
  "add = lanes2 (\<lambda>x y. x + y)"

definition sub :: "Sk4px \<Rightarrow> Sk4px \<Rightarrow> Sk4px" where
  "sub = lanes2 (\<lambda>x y. x - y)"

text \<open>
  Modelled from the spec: \<^verbatim>\<open>Sk4px::saturatedAdd\<close>, missing from the sources: per-byte
  addition clamped to 255. \<open>sat_add8\<close> is its action on one byte.
\<close>

definition sat_add8 :: "u8 \<Rightarrow> u8 \<Rightarrow> u8" where
  "sat_add8 x y = (if unat x + unat y > 255 then 255 else x + y)"

definition saturatedAdd :: "Sk4px \<Rightarrow> Sk4px \<Rightarrow> Sk4px" where
  "saturatedAdd = lanes2 sat_add8"

text \<open>
  Modelled from the spec: \<^verbatim>\<open>Sk4px::approxMulDiv255\<close>, missing from the sources. It is
  described as a fast per-byte approximation of \<open>round (a * b / 255)\<close> that is exact
  whenever an operand is 0 or 255 and is off by at most one elsewhere. The candidate
  \<open>(a * b + 128) >> 8\<close> that the specification mentions gives 254 for \<open>255 * 255\<close>
  (lemma \<open>shift_128_inexact\<close>), so it is not used; the model is \<open>(a * b + a) >> 8\<close>
  computed in 16 bits, which meets every part of that contract (lemmas
  \<open>amd8_zero_left\<close>, \<open>amd8_zero_right\<close>, \<open>amd8_255_left\<close>, \<open>amd8_255_right\<close> and
  \<open>amd8_approx\<close>). \<open>amd8\<close> is its action on one byte.
\<close>

definition amd8 :: "u8 \<Rightarrow> u8 \<Rightarrow> u8" where
  "amd8 x y = ucast (drop_bit 8 ((ucast x :: u16) * ucast y + ucast x))"

definition approxMulDiv255 :: "Sk4px \<Rightarrow> Sk4px \<Rightarrow> Sk4px" where
  "approxMulDiv255 = lanes2 amd8"

text \<open>
  Modelled from the spec: the operator \<open><\<close> of \<^verbatim>\<open>Sk4px\<close>, missing from the sources: the
  element-wise unsigned comparison of the bytes, returning a mask.
\<close>

definition lt :: "Sk4px \<Rightarrow> Sk4px \<Rightarrow> Mask" where
  "lt = lanes2 (\<lambda>x y. x < y)"

text \<open>
  Modelled from the spec: \<^verbatim>\<open>Sk4px::widenLoHi\<close>, missing from the sources, extends a
  narrow mask to a mask over the 16-bit lanes; each lane keeps its truth value.
\<close>

definition widenLoHi :: "Mask \<Rightarrow> Mask" where
  "widenLoHi m = m"

text \<open>
  Modelled from the spec: \<^verbatim>\<open>thenElse\<close>, missing from the sources, selects lane by lane:
  the first vector where the mask holds, the second where it does not. It is used on
  narrow and on wide vectors.
\<close>

definition thenElse :: "Mask \<Rightarrow> 'a px x4 \<Rightarrow> 'a px x4 \<Rightarrow> 'a px x4" where
  "thenElse = lanes3 (\<lambda>m t e. if m then t else e)"

text \<open>
  Modelled from the spec: the operator \<open>*\<close> of \<^verbatim>\<open>Sk4px\<close>, missing from the sources,
  multiplies two narrow vectors into a wide one, each byte pair into a 16-bit lane.
\<close>

definition mul :: "Sk4px \<Rightarrow> Sk4px \<Rightarrow> Wide" where
  "mul = lanes2 (\<lambda>x y. ucast x * ucast y)"

text \<open>
  Modelled from the spec: the operators \<open>+\<close>, \<open>-\<close> and \<open><<\<close> (by one bit) of
  \<^verbatim>\<open>Sk4px::Wide\<close>, missing from the sources. They work in the 16-bit lanes, where the
  result wraps around.
\<close>

definition addW :: "Wide \<Rightarrow> Wide \<Rightarrow> Wide" where
  "addW = lanes2 (\<lambda>x y. x + y)"

definition subW :: "Wide \<Rightarrow> Wide \<Rightarrow> Wide" where
  "subW = lanes2 (\<lambda>x y. x - y)"

definition shl1 :: "Wide \<Rightarrow> Wide" where
  "shl1 = lanes1 (\<lambda>x. push_bit 1 x)"

text \<open>
  Modelled from the spec: \<^verbatim>\<open>Sk4px::Wide::Min\<close>, missing from the sources: the lane-wise
  unsigned minimum.
\<close>

definition MinW :: "Wide \<Rightarrow> Wide \<Rightarrow> Wide" where
  "MinW = lanes2 min"

text \<open>
  Modelled from the spec: \<^verbatim>\<open>Sk4px::Wide::div255\<close>, missing from the sources, is the exact
  rounded division \<open>round (x / 255)\<close> of every 16-bit lane, narrowed to a byte.
  \<open>round255 n\<close> is \<open>n / 255\<close> rounded to the nearest integer; as 255 is odd the quotient
  is never half way between two integers, so no tie-breaking rule is involved
  (lemma \<open>round255_nearest\<close>). \<open>div255_16\<close> is the action on one lane. The quotient
  fits a byte for lanes up to \<open>255 * 255\<close>, which is all a kernel produces from
  premultiplied pixels; beyond that the narrowing keeps the low 8 bits.
\<close>

definition round255 :: "nat \<Rightarrow> nat" where
  "round255 n = (n + 127) div 255"

definition div255_16 :: "u16 \<Rightarrow> u8" where
  "div255_16 x = of_nat (round255 (unat x))"

definition div255 :: "Wide \<Rightarrow> Sk4px" where
  "div255 = lanes1 div255_16"

section \<open>The transfer modes\<close>

text \<open>
  The macro \<^verbatim>\<open>XFERMODE(Name)\<close> declares a struct \<^verbatim>\<open>Name\<close> with a static function
  \<^verbatim>\<open>Name::Xfer(s, d)\<close> and the constant \<^verbatim>\<open>Name::kMode\<close>. The structs are the template
  arguments \<^verbatim>\<open>ProcType\<close> of the file; \<open>Xfer Name s d\<close> is \<^verbatim>\<open>Name::Xfer(s, d)\<close>.
\<close>

datatype ProcType =
    Clear | Src | Dst | SrcIn | SrcOut | SrcOver | DstIn | DstOut | DstOver
  | SrcATop | DstATop | Xor | Plus | Modulate | Screen | Multiply | Difference | Exclusion
  | HardLight | Overlay | Darken | Lighten

text \<open>
  The local values \<^verbatim>\<open>isLite\<close>, \<^verbatim>\<open>lite\<close>, \<^verbatim>\<open>dark\<close> and \<^verbatim>\<open>both\<close> of \<^verbatim>\<open>HardLight::Xfer\<close>,
  named so that their 16-bit arithmetic can be spoken about; \<^verbatim>\<open>sa\<close> is \<open>alphas s\<close>
  and \<^verbatim>\<open>da\<close> is \<open>alphas d\<close>.
\<close>

definition HardLight_isLite :: "Sk4px \<Rightarrow> Sk4px \<Rightarrow> Mask" where
  "HardLight_isLite s d = widenLoHi (lt (sub (alphas s) s) s)"

definition HardLight_lite :: "Sk4px \<Rightarrow> Sk4px \<Rightarrow> Wide" where
  "HardLight_lite s d =
     subW (mul (alphas s) (alphas d)) (shl1 (mul (sub (alphas d) d) (sub (alphas s) s)))"

definition HardLight_dark :: "Sk4px \<Rightarrow> Sk4px \<Rightarrow> Wide" where
  "HardLight_dark s d = shl1 (mul s d)"

definition HardLight_both :: "Sk4px \<Rightarrow> Sk4px \<Rightarrow> Wide" where
  "HardLight_both s d = addW (mul s (inv (alphas d))) (mul d (inv (alphas s)))"

function Xfer :: "ProcType \<Rightarrow> Sk4px \<Rightarrow> Sk4px \<Rightarrow> Sk4px" where
  "Xfer Clear s d = DupPMColor (Px 0 0 0 0)"
| "Xfer Src s d = s"
| "Xfer Dst s d = d"
| "Xfer SrcIn s d = approxMulDiv255 s (alphas d)"
| "Xfer SrcOut s d = approxMulDiv255 s (inv (alphas d))"
| "Xfer SrcOver s d = add s (approxMulDiv255 d (inv (alphas s)))"
| "Xfer DstIn s d = Xfer SrcIn d s"
| "Xfer DstOut s d = Xfer SrcOut d s"
| "Xfer DstOver s d = Xfer SrcOver d s"
| "Xfer SrcATop s d = div255 (addW (mul s (alphas d)) (mul d (inv (alphas s))))"
| "Xfer DstATop s d = Xfer SrcATop d s"
| "Xfer Xor s d = div255 (addW (mul s (inv (alphas d))) (mul d (inv (alphas s))))"
| "Xfer Plus s d = saturatedAdd s d"
| "Xfer Modulate s d = approxMulDiv255 s d"
| "Xfer Screen s d = add s (approxMulDiv255 d (inv s))"
| "Xfer Multiply s d =
     div255 (addW (addW (mul s (inv (alphas d))) (mul d (inv (alphas s)))) (mul s d))"
| "Xfer Difference s d =
     (let m = div255 (MinW (mul s (alphas d)) (mul d (alphas s)))
      in add (sub s m) (sub d (zeroAlphas m)))"
| "Xfer Exclusion s d =
     (let p = approxMulDiv255 s d
      in add (sub s p) (sub d (zeroAlphas p)))"
| "Xfer HardLight s d =
     (let sa = alphas s;
          da = alphas d;
          srcover = add s (div255 (mul d (inv sa)));
          isLite = HardLight_isLite s d;
          lite = HardLight_lite s d;
          dark = HardLight_dark s d;
          both = HardLight_both s d;
          alphas' = srcover;
          colors = div255 (addW both (thenElse isLite lite dark))
      in add (zeroColors alphas') (zeroAlphas colors))"
| "Xfer Overlay s d = Xfer HardLight d s"
| "Xfer Darken s d =
     (let sa = alphas s;
          da = alphas d;
          sda = div255 (mul s da);
          dsa = div255 (mul d sa);
          srcover = add s (div255 (mul d (inv sa)));
          dstover = add d (div255 (mul s (inv da)));
          alphas' = srcover;
          colors = thenElse (lt sda dsa) srcover dstover
      in add (zeroColors alphas') (zeroAlphas colors))"
| "Xfer Lighten s d =
     (let sa = alphas s;
          da = alphas d;
          sda = div255 (mul s da);
          dsa = div255 (mul d sa);
          srcover = add s (div255 (mul d (inv sa)));
          dstover = add d (div255 (mul s (inv da)));
          alphas' = srcover;
          colors = thenElse (lt dsa sda) srcover dstover
      in add (zeroColors alphas') (zeroAlphas colors))"
  by pat_completeness auto
termination
  by (relation "measure (\<lambda>(m, s, d). if m \<in> {DstIn, DstOut, DstOver, DstATop, Overlay} then 1 else 0)")
    auto

section \<open>The coverage wrapper\<close>

text \<open>
  \<^verbatim>\<open>xfer_aa<Mode>\<close> applies the mode and then interpolates linearly between the result
  and the destination by the coverage \<open>aa\<close>. The template is specialised for Plus,
  whose clamp has to come after the coverage.
\<close>

fun xfer_aa :: "ProcType \<Rightarrow> Sk4px \<Rightarrow> Sk4px \<Rightarrow> Sk4px \<Rightarrow> Sk4px" where
  "xfer_aa Plus s d aa = saturatedAdd d (approxMulDiv255 s aa)"
| "xfer_aa Mode s d aa =
     (let bw = Xfer Mode s d
      in div255 (addW (mul bw aa) (mul d (inv aa))))"

section \<open>Creating the transfer mode for a mode identifier\<close>

text \<open>
  Modelled from the spec: the enumeration \<^verbatim>\<open>SkXfermode::Mode\<close> is declared in a header
  that is not at hand. It has the 22 enumerators that the switch of
  \<^verbatim>\<open>SkCreate4pxXfermode\<close> names; every other mode identifier is \<open>kOther_Mode n\<close>.
\<close>

datatype Mode =
    kClear_Mode | kSrc_Mode | kDst_Mode | kSrcOver_Mode | kDstOver_Mode | kSrcIn_Mode
  | kDstIn_Mode | kSrcOut_Mode | kDstOut_Mode | kSrcATop_Mode | kDstATop_Mode | kXor_Mode
  | kPlus_Mode | kModulate_Mode | kScreen_Mode | kMultiply_Mode | kDifference_Mode
  | kExclusion_Mode | kHardLight_Mode | kOverlay_Mode | kDarken_Mode | kLighten_Mode
  | kOther_Mode nat

fun kMode :: "ProcType \<Rightarrow> Mode" where
  "kMode Clear = kClear_Mode"
| "kMode Src = kSrc_Mode"
| "kMode Dst = kDst_Mode"
| "kMode SrcIn = kSrcIn_Mode"
| "kMode SrcOut = kSrcOut_Mode"
| "kMode SrcOver = kSrcOver_Mode"
| "kMode DstIn = kDstIn_Mode"
| "kMode DstOut = kDstOut_Mode"
| "kMode DstOver = kDstOver_Mode"
| "kMode SrcATop = kSrcATop_Mode"
| "kMode DstATop = kDstATop_Mode"
| "kMode Xor = kXor_Mode"
| "kMode Plus = kPlus_Mode"
| "kMode Modulate = kModulate_Mode"
| "kMode Screen = kScreen_Mode"
| "kMode Multiply = kMultiply_Mode"
| "kMode Difference = kDifference_Mode"
| "kMode Exclusion = kExclusion_Mode"
| "kMode HardLight = kHardLight_Mode"
| "kMode Overlay = kOverlay_Mode"
| "kMode Darken = kDarken_Mode"
| "kMode Lighten = kLighten_Mode"

text \<open>
  \<^verbatim>\<open>SkT4pxXfermode<ProcType>::Create(rec)\<close> builds the transfer-mode object from the
  coefficient record \<open>rec\<close>; the object remembers \<open>rec\<close> and its \<^verbatim>\<open>ProcType\<close>.
\<close>

datatype 'r SkT4pxXfermode = SkT4pxXfermode (fRec: 'r) (fProc: ProcType)

definition Create :: "ProcType \<Rightarrow> 'r \<Rightarrow> 'r SkT4pxXfermode" where
  "Create p rec = SkT4pxXfermode rec p"

text \<open>
  The preprocessor symbols that \<^verbatim>\<open>SkCreate4pxXfermode\<close> tests. The switch is compiled
  only where \<^verbatim>\<open>!defined(SK_CPU_ARM32) || defined(SK_ARM_HAS_NEON)\<close>, and its last four
  cases only where \<^verbatim>\<open>!defined(SK_SUPPORT_LEGACY_XFERMODES)\<close>.
\<close>

record build_config =
  SK_CPU_ARM32 :: bool
  SK_ARM_HAS_NEON :: bool
  SK_SUPPORT_LEGACY_XFERMODES :: bool

text \<open>
  The \<^verbatim>\<open>switch (mode)\<close> of \<^verbatim>\<open>SkCreate4pxXfermode\<close>; \<open>legacy\<close> tells whether
  \<^verbatim>\<open>SK_SUPPORT_LEGACY_XFERMODES\<close> is defined. A mode without a case leaves the switch
  through \<^verbatim>\<open>default: break\<close> and reaches \<^verbatim>\<open>return nullptr\<close>.
\<close>

fun switch_mode :: "bool \<Rightarrow> 'r \<Rightarrow> Mode \<Rightarrow> 'r SkT4pxXfermode option" where
  "switch_mode legacy rec kClear_Mode = Some (Create Clear rec)"
| "switch_mode legacy rec kSrc_Mode = Some (Create Src rec)"
| "switch_mode legacy rec kDst_Mode = Some (Create Dst rec)"
| "switch_mode legacy rec kSrcOver_Mode = Some (Create SrcOver rec)"
| "switch_mode legacy rec kDstOver_Mode = Some (Create DstOver rec)"
| "switch_mode legacy rec kSrcIn_Mode = Some (Create SrcIn rec)"
| "switch_mode legacy rec kDstIn_Mode = Some (Create DstIn rec)"
| "switch_mode legacy rec kSrcOut_Mode = Some (Create SrcOut rec)"
| "switch_mode legacy rec kDstOut_Mode = Some (Create DstOut rec)"
| "switch_mode legacy rec kSrcATop_Mode = Some (Create SrcATop rec)"
| "switch_mode legacy rec kDstATop_Mode = Some (Create DstATop rec)"
| "switch_mode legacy rec kXor_Mode = Some (Create Xor rec)"
| "switch_mode legacy rec kPlus_Mode = Some (Create Plus rec)"
| "switch_mode legacy rec kModulate_Mode = Some (Create Modulate rec)"
| "switch_mode legacy rec kScreen_Mode = Some (Create Screen rec)"
| "switch_mode legacy rec kMultiply_Mode = Some (Create Multiply rec)"
| "switch_mode legacy rec kDifference_Mode = Some (Create Difference rec)"
| "switch_mode legacy rec kExclusion_Mode = Some (Create Exclusion rec)"
| "switch_mode legacy rec kHardLight_Mode = (if legacy then None else Some (Create HardLight rec))"
| "switch_mode legacy rec kOverlay_Mode = (if legacy then None else Some (Create Overlay rec))"
| "switch_mode legacy rec kDarken_Mode = (if legacy then None else Some (Create Darken rec))"
| "switch_mode legacy rec kLighten_Mode = (if legacy then None else Some (Create Lighten rec))"
| "switch_mode legacy rec (kOther_Mode n) = None"

text \<open>\<open>None\<close> is the \<^verbatim>\<open>nullptr\<close> that tells the caller the mode is not handled here.\<close>

definition SkCreate4pxXfermode ::
  "build_config \<Rightarrow> 'r \<Rightarrow> Mode \<Rightarrow> 'r SkT4pxXfermode option" where
  "SkCreate4pxXfermode cfg rec mode =
     (if \<not> SK_CPU_ARM32 cfg \<or> SK_ARM_HAS_NEON cfg
      then switch_mode (SK_SUPPORT_LEGACY_XFERMODES cfg) rec mode
      else None)"

text \<open>The 22 mode identifiers that the switch of \<^verbatim>\<open>SkCreate4pxXfermode\<close> lists.\<close>

definition supported_modes :: "Mode list" where
  "supported_modes =
     [kClear_Mode, kSrc_Mode, kDst_Mode, kSrcOver_Mode, kDstOver_Mode, kSrcIn_Mode,
      kDstIn_Mode, kSrcOut_Mode, kDstOut_Mode, kSrcATop_Mode, kDstATop_Mode, kXor_Mode,
      kPlus_Mode, kModulate_Mode, kScreen_Mode, kMultiply_Mode, kDifference_Mode,
      kExclusion_Mode, kHardLight_Mode, kOverlay_Mode, kDarken_Mode, kLighten_Mode]"

text \<open>
  The four modes whose cases are compiled only where \<^verbatim>\<open>SK_SUPPORT_LEGACY_XFERMODES\<close>
  is not defined.
\<close>

definition legacy_excluded_modes :: "Mode list" where
  "legacy_excluded_modes = [kHardLight_Mode, kOverlay_Mode, kDarken_Mode, kLighten_Mode]"

text \<open>
  The alpha of the union of two coverages, \<open>sa + da - round (sa * da / 255)\<close>, as an
  integer, the modes whose alpha channel is computed in exact arithmetic, and the
  modes whose alpha channel goes through \<^verbatim>\<open>approxMulDiv255\<close>.
\<close>

definition union_alpha :: "u8 \<Rightarrow> u8 \<Rightarrow> int" where
  "union_alpha sa da = int (unat sa) + int (unat da) - int (round255 (unat sa * unat da))"

definition exact_alpha_modes :: "ProcType list" where
  "exact_alpha_modes = [Multiply, Difference, HardLight, Overlay, Darken, Lighten]"

definition approx_alpha_modes :: "ProcType list" where
  "approx_alpha_modes = [SrcOver, DstOver, Exclusion]"

text \<open>
  A 16-bit lane operation does not wrap when its result, read as a number, is the
  result of the same operation on the numbers: the sum for \<open>+\<close>, the (non-negative)
  difference for \<open>-\<close>, the double for \<open><< 1\<close>.
\<close>

definition fits_add :: "u16 \<Rightarrow> u16 \<Rightarrow> bool" where
  "fits_add x y \<longleftrightarrow> unat (x + y) = unat x + unat y"

definition fits_sub :: "u16 \<Rightarrow> u16 \<Rightarrow> bool" where
  "fits_sub x y \<longleftrightarrow> int (unat (x - y)) = int (unat x) - int (unat y)"

definition fits_shl1 :: "u16 \<Rightarrow> bool" where
  "fits_shl1 x \<longleftrightarrow> unat (push_bit 1 x) = 2 * unat x"

section \<open>Reading a byte of a result\<close>

lemma at_lanes1: "at (lanes1 f v) l c = f (at v l c)"
  by (cases l; cases c) (simp_all add: at_def lanes1_def vec1_def px1_def)

lemma at_lanes2: "at (lanes2 f v w) l c = f (at v l c) (at w l c)"
  by (cases l; cases c) (simp_all add: at_def lanes2_def vec2_def px2_def)

lemma at_lanes3: "at (lanes3 f v w u) l c = f (at v l c) (at w l c) (at u l c)"
  by (cases l; cases c) (simp_all add: at_def lanes3_def vec3_def px3_def)

lemma vec_eq_iff: "v = w \<longleftrightarrow> (\<forall>l c. at v l c = at w l c)"
proof
  assume h: "\<forall>l c. at v l c = at w l c"
  have p: "lane l v = lane l w" for l
    using h [rule_format, of l B] h [rule_format, of l G] h [rule_format, of l R]
      h [rule_format, of l A]
    by (simp add: at_def px.expand)
  show "v = w"
    using p [of L0] p [of L1] p [of L2] p [of L3] by (simp add: x4.expand)
qed simp

lemma at_alphas: "at (alphas v) l c = at v l A"
  by (cases l; cases c) (simp_all add: at_def alphas_def vec1_def)

lemma at_zeroAlphas: "at (zeroAlphas v) l c = (if c = A then 0 else at v l c)"
  by (cases l; cases c) (simp_all add: at_def zeroAlphas_def vec1_def)

lemma at_zeroColors: "at (zeroColors v) l c = (if c = A then at v l A else 0)"
  by (cases l; cases c) (simp_all add: at_def zeroColors_def vec1_def)

lemma at_DupPMColor: "at (DupPMColor p) l c = ch c p"
  by (cases l) (simp_all add: at_def DupPMColor_def)

lemma lane_eq_iff: "lane l v = lane l w \<longleftrightarrow> (\<forall>c. at v l c = at w l c)"
proof
  assume h: "\<forall>c. at v l c = at w l c"
  show "lane l v = lane l w"
    using h [rule_format, of B] h [rule_format, of G] h [rule_format, of R] h [rule_format, of A]
    by (simp add: at_def px.expand)
qed (simp add: at_def)

lemma premul_iff: "premul (lane l v) \<longleftrightarrow> (\<forall>c. at v l c \<le> at v l A)"
proof
  assume h: "premul (lane l v)"
  show "\<forall>c. at v l c \<le> at v l A"
  proof
    fix c show "at v l c \<le> at v l A"
      using h by (cases c) (simp_all add: premul_def at_def)
  qed
next
  assume h: "\<forall>c. at v l c \<le> at v l A"
  show "premul (lane l v)"
    using h [rule_format, of B] h [rule_format, of G] h [rule_format, of R]
    by (simp add: premul_def at_def)
qed

lemma premul4_iff: "premul4 v \<longleftrightarrow> (\<forall>l. premul (lane l v))"
proof
  assume h: "\<forall>l. premul (lane l v)"
  show "premul4 v"
    using h [rule_format, of L0] h [rule_format, of L1] h [rule_format, of L2]
      h [rule_format, of L3]
    by (simp add: premul4_def)
next
  assume h: "premul4 v"
  show "\<forall>l. premul (lane l v)"
  proof
    fix l show "premul (lane l v)"
      using h by (cases l) (simp_all add: premul4_def)
  qed
qed

text \<open>The operations on single lanes, read as natural numbers.\<close>

lemma u8_lt: "unat (x::u8) < 256"
  using unsigned_less [of x, where 'a = nat] by simp

lemma u8_le: "unat (x::u8) \<le> 255"
  using u8_lt [of x] by simp

lemma u16_lt: "unat (x::u16) < 65536"
  using unsigned_less [of x, where 'a = nat] by simp

lemma unat_inv8: "unat (255 - x :: u8) = 255 - unat x"
  using u8_le[of x] 
  by (simp add: unat_sub word_le_nat_alt)

lemma unat_widen: "unat (ucast (x::u8) :: u16) = unat x"
  using u8_lt [of x] by (simp add: unsigned_ucast_eq take_bit_eq_mod)

lemma prod_le: "unat (x::u8) * unat (y::u8) \<le> 65025"
proof -
  have "unat x * unat y \<le> 255 * 255"
    by (rule mult_mono) (simp_all add: u8_le)
  then show ?thesis by simp
qed

lemma unat_mul16: "unat ((ucast (x::u8) :: u16) * ucast (y::u8)) = unat x * unat y"
  using prod_le [of x y] by (simp add: unat_word_ariths unat_widen)

lemma unat_amd8: "unat (amd8 x y) = (unat x * unat y + unat x) div 256"
proof -
  have a: "unat x * unat y + unat x < 65536"
    using prod_le [of x y] u8_le [of x] by simp
  then have b: "(unat x * unat y + unat x) div 256 < 256"
    by simp
  have c: "unat (drop_bit 8 W) = unat W div 256" for W :: u16
    by (simp add: drop_bit_eq_div unat_div)
  have "unat ((ucast x :: u16) * ucast y + ucast x) = unat x * unat y + unat x"
    using a by (simp add: unat_word_ariths unat_widen)
  then have "unat (drop_bit 8 ((ucast x :: u16) * ucast y + ucast x)) = (unat x * unat y + unat x) div 256"
    by (simp only: c)
  then show ?thesis
    using b by (simp add: amd8_def unsigned_ucast_eq take_bit_eq_mod)
qed

lemma unat_sat: "unat (sat_add8 x y) = min 255 (unat x + unat y)"
  by (simp add: sat_add8_def unat_word_ariths)

lemma unat_div255: "unat w \<le> 65025 \<Longrightarrow> unat (div255_16 w) = round255 (unat w)"
proof -
  assume "unat w \<le> 65025"
  then have "round255 (unat w) < 256" by (simp add: round255_def)
  then show ?thesis by (simp add: div255_16_def unat_of_nat)
qed

lemma unat_shl1: "unat (push_bit 1 (w::u16)) = (2 * unat w) mod 65536"
  by (simp add: unat_word_ariths mult.commute)

lemma unat_min: "unat (min (x::u16) y) = min (unat x) (unat y)"
  by (simp add: min_def word_le_nat_alt)

lemma sat_add8_commute: "sat_add8 x y = sat_add8 y x"
  by (simp add: sat_add8_def add.commute)

lemma at_add: "at (add v w) l c = at v l c + at w l c"
  by (simp add: add_def at_lanes2)

lemma at_sub: "at (sub v w) l c = at v l c - at w l c"
  by (simp add: sub_def at_lanes2)

lemma at_inv: "at (inv v) l c = 255 - at v l c"
  by (simp add: inv_def at_lanes1)

lemma at_saturatedAdd: "at (saturatedAdd v w) l c = sat_add8 (at v l c) (at w l c)"
  by (simp add: saturatedAdd_def at_lanes2)

lemma at_approxMulDiv255: "at (approxMulDiv255 v w) l c = amd8 (at v l c) (at w l c)"
  by (simp add: approxMulDiv255_def at_lanes2)

lemma at_lt: "at (lt v w) l c \<longleftrightarrow> at v l c < at w l c"
  by (simp add: lt_def at_lanes2)

lemma at_thenElse: "at (thenElse m t e) l c = (if at m l c then at t l c else at e l c)"
  by (simp add: thenElse_def at_lanes3)

lemma at_mul: "at (mul v w) l c = ucast (at v l c) * ucast (at w l c)"
  by (simp add: mul_def at_lanes2)

lemma at_addW: "at (addW v w) l c = at v l c + at w l c"
  by (simp add: addW_def at_lanes2)

lemma at_subW: "at (subW v w) l c = at v l c - at w l c"
  by (simp add: subW_def at_lanes2)

lemma at_shl1: "at (shl1 v) l c = push_bit 1 (at v l c)"
  by (simp add: shl1_def at_lanes1)

lemma at_MinW: "at (MinW v w) l c = min (at v l c) (at w l c)"
  by (simp add: MinW_def at_lanes2)

lemma at_div255: "at (div255 v) l c = div255_16 (at v l c)"
  by (simp add: div255_def at_lanes1)

lemmas at_ops = at_add at_sub at_inv at_saturatedAdd at_approxMulDiv255 at_lt at_thenElse
  at_mul at_addW at_subW at_shl1 at_MinW at_div255 at_alphas at_zeroAlphas at_zeroColors
  at_DupPMColor widenLoHi_def

lemma amd8_zero_left: "amd8 0 y = 0"
  by (simp add: word_unat_eq_iff unat_amd8)

lemma amd8_zero_right: "amd8 x 0 = 0"
  using u8_lt [of x] by (simp add: word_unat_eq_iff unat_amd8)

lemma amd8_255_right: "amd8 x 255 = x"
  by (simp add: word_unat_eq_iff unat_amd8)

lemma amd8_255_left: "amd8 255 y = y"
proof -
  have "(255 * unat y + 255) div 256 = unat y"
    using u8_lt [of y] by simp
  then show ?thesis by (simp add: word_unat_eq_iff unat_amd8)
qed

lemma sat_add8_zero_left: "sat_add8 0 y = y"
  using u8_le [of y] by (simp add: sat_add8_def)

lemma sat_add8_zero_right: "sat_add8 x 0 = x"
  using u8_le [of x] by (simp add: sat_add8_def)

lemma unat_add16: "unat (a + b :: u16) = (unat a + unat b) mod 65536"
  by (simp add: unat_word_ariths)

lemma unat_add8: "unat (a + b :: u8) = (unat a + unat b) mod 256"
  by (simp add: unat_word_ariths)

text \<open>The interpolation \<open>x * a + y * (255 - a)\<close> of two bytes never leaves 16 bits.\<close>
lemma unat_lerp:
  "unat ((ucast (x::u8) :: u16) * ucast (a::u8) + ucast (y::u8) * ucast (255 - a))
     = unat x * unat a + unat y * (255 - unat a)"
proof -
  have 1: "unat x * unat a \<le> 255 * unat a"
    by (rule mult_right_mono) (simp_all add: u8_le)
  have 2: "unat y * (255 - unat a) \<le> 255 * (255 - unat a)"
    by (rule mult_right_mono) (simp_all add: u8_le)
  have "unat x * unat a + unat y * (255 - unat a) \<le> 255 * unat a + 255 * (255 - unat a)"
    using 1 2 by (rule add_mono)
  also have "\<dots> = 65025" using u8_le [of a] by simp
  finally have "unat x * unat a + unat y * (255 - unat a) < 65536" by simp
  then show ?thesis
    by (simp add: unat_add16 unat_mul16 unat_inv8)
qed

lemma round255_times_255: "round255 (255 * n) = n"
  by (simp add: round255_def)

lemma div255_16_times_255: "unat w = 255 * unat (x::u8) \<Longrightarrow> div255_16 w = x"
  by (simp add: div255_16_def round255_times_255)

section \<open>Properties of single modes\<close>

text \<open>
  C10. The Plus kernel is commutative: \<open>Plus (s, d) = Plus (d, s)\<close> for every pair of
  pixel vectors, because per-byte saturated addition is symmetric.
\<close>

theorem Plus_commute: "Xfer Plus s d = Xfer Plus d s"
  by (simp add: vec_eq_iff saturatedAdd_def at_lanes2 sat_add8_commute)

text \<open>
  C8. In every pixel the alpha channel of \<open>SrcATop (s, d)\<close> is exactly the alpha of
  \<open>d\<close>, because \<open>(sa * da + da * (255 - sa)) / 255 = da\<close>; and symmetrically the alpha
  channel of \<open>DstATop (s, d)\<close> is exactly the alpha of \<open>s\<close>.
\<close>

theorem SrcATop_DstATop_alpha:
  "at (Xfer SrcATop s d) l A = at d l A \<and> at (Xfer DstATop s d) l A = at s l A"
proof -
  have k: "div255_16 (ucast x * ucast y + ucast y * ucast (255 - x)) = y" for x y :: u8
  proof (rule div255_16_times_255)
    have "unat ((ucast y :: u16) * ucast x + ucast y * ucast (255 - x))
        = unat y * unat x + unat y * (255 - unat x)"
      by (rule unat_lerp)
    also have "\<dots> = unat y * (unat x + (255 - unat x))"
      by (simp add: algebra_simps)
    also have "\<dots> = 255 * unat y" using u8_le [of x] by simp
    finally show "unat ((ucast x :: u16) * ucast y + ucast y * ucast (255 - x)) = 255 * unat y"
      by (simp add: mult.commute)
  qed
  show ?thesis by (simp add: at_ops k)
qed

text \<open>
  C9. In every pixel where the source is fully opaque (alpha 255), \<open>SrcOver (s, d)\<close>
  returns the source pixel unchanged: the destination is multiplied by \<open>255 - 255 = 0\<close>
  and \<^verbatim>\<open>approxMulDiv255\<close> is exact there.
\<close>

theorem SrcOver_opaque_source:
  assumes "at s l A = 255"
  shows "lane l (Xfer SrcOver s d) = lane l s"
  using assms by (simp add: lane_eq_iff at_ops amd8_zero_right)

theorem SrcOver_opaque_source_witness:
  "at (DupPMColor (Px 10 20 30 255)) L2 A = 255 \<and>
   lane L2 (Xfer SrcOver (DupPMColor (Px 10 20 30 255)) (DupPMColor (Px 200 100 7 250)))
     = lane L2 (DupPMColor (Px 10 20 30 255))"
  using SrcOver_opaque_source [of "DupPMColor (Px 10 20 30 255)" L2 "DupPMColor (Px 200 100 7 250)"]
  by (simp add: at_def DupPMColor_def)

section \<open>The coverage wrapper at its endpoints\<close>

lemma div255_16_zero: "div255_16 0 = 0"
  by (simp add: div255_16_def round255_def)

lemma ch_grey: "ch c (Px x x x x) = x"
  by (cases c) simp_all

lemma xfer_aa_generic:
  "M \<noteq> Plus \<Longrightarrow> xfer_aa M s d aa = div255 (addW (mul (Xfer M s d) aa) (mul d (inv aa)))"
  by (cases M) simp_all

lemma lerp_full:
  "div255_16 (ucast x * ucast (255::u8) + ucast (y::u8) * ucast (255 - 255 :: u8)) = (x::u8)"
proof (rule div255_16_times_255)
  show "unat ((ucast x :: u16) * ucast (255::u8) + ucast y * ucast (255 - 255 :: u8))
      = 255 * unat x"
    using unat_lerp [of x 255 y] by simp
qed

lemma lerp_none:
  "div255_16 (ucast (x::u8) * ucast (0::u8) + ucast y * ucast (255 - 0 :: u8)) = (y::u8)"
proof (rule div255_16_times_255)
  show "unat ((ucast x :: u16) * ucast (0::u8) + ucast y * ucast (255 - 0 :: u8))
      = 255 * unat y"
    using unat_lerp [of x 0 y] by simp
qed

text \<open>
  C6. For every mode \<open>M\<close>, the specialised Plus path included, and all pixel vectors
  \<open>s\<close>, \<open>d\<close>: the coverage wrapper with full coverage (every coverage byte 255) returns
  exactly \<open>M (s, d)\<close>, and with zero coverage (every coverage byte 0) returns exactly
  \<open>d\<close>.
\<close>

theorem xfer_aa_endpoints:
  "xfer_aa M s d (DupPMColor (Px 255 255 255 255)) = Xfer M s d \<and>
   xfer_aa M s d (DupPMColor (Px 0 0 0 0)) = d"
proof (cases "M = Plus")
  case True
  show ?thesis
    by (simp add: True vec_eq_iff at_ops ch_grey amd8_255_right amd8_zero_right
        sat_add8_zero_right sat_add8_zero_left sat_add8_commute)
next
  case False
  have f: "at (div255 (addW (mul v (DupPMColor (Px 255 255 255 255)))
              (mul d (inv (DupPMColor (Px 255 255 255 255)))))) l c = at v l c" for v l c
    using lerp_full [of "at v l c" "at d l c"] by (simp only: at_ops ch_grey)
  have z: "at (div255 (addW (mul v (DupPMColor (Px 0 0 0 0)))
              (mul d (inv (DupPMColor (Px 0 0 0 0)))))) l c = at d l c" for v l c
    using lerp_none [of "at v l c" "at d l c"] by (simp only: at_ops ch_grey)
  show ?thesis
    by (simp only: xfer_aa_generic [OF False] vec_eq_iff f z) simp
qed

text \<open>
  C5. The coverage-aware Plus is \<open>saturatedAdd (d, approxMulDiv255 (s, aa))\<close>. In a
  pixel whose four coverage bytes all equal \<open>\<alpha>\<close>, every output byte is
  \<open>min 255 (D + (S * \<alpha> + S) div 256)\<close>: the source byte is scaled by the coverage first
  and the clamp to 255 is applied to the sum afterwards.
\<close>

theorem xfer_aa_Plus_bytes:
  assumes "\<forall>c. at aa l c = \<alpha>"
  shows "xfer_aa Plus s d aa = saturatedAdd d (approxMulDiv255 s aa) \<and>
         unat (at (xfer_aa Plus s d aa) l c)
           = min 255 (unat (at d l c) + (unat (at s l c) * unat \<alpha> + unat (at s l c)) div 256)"
  using assms by (simp add: at_ops unat_sat unat_amd8)

theorem xfer_aa_Plus_bytes_witness:
  "(\<forall>c. at (DupPMColor (Px 255 255 255 255)) L0 c = 255) \<and>
   xfer_aa Plus (DupPMColor (Px 128 128 128 128)) (DupPMColor (Px 200 200 200 200))
       (DupPMColor (Px 255 255 255 255))
     = DupPMColor (Px 255 255 255 255)"
proof -
  have h: "\<forall>c. at (DupPMColor (Px 255 255 255 255)) L0 c = 255"
    by (simp add: at_ops ch_grey)
  have "xfer_aa Plus (DupPMColor (Px 128 128 128 128)) (DupPMColor (Px 200 200 200 200))
           (DupPMColor (Px 255 255 255 255))
      = saturatedAdd (DupPMColor (Px 200 200 200 200))
          (approxMulDiv255 (DupPMColor (Px 128 128 128 128)) (DupPMColor (Px 255 255 255 255)))"
    using xfer_aa_Plus_bytes [OF h] by simp
  also have "\<dots> = DupPMColor (Px 255 255 255 255)"
    by (simp add: vec_eq_iff at_ops ch_grey amd8_255_right sat_add8_def)
  finally show ?thesis using h by simp
qed

section \<open>A fully transparent source\<close>

lemma zero_lane: "lane l s = Px 0 0 0 0 \<Longrightarrow> at s l c = 0"
  by (simp add: at_def ch_grey)

text \<open>
  C4, as the code has it. In a pixel where the source is all zero, the modes Dst,
  DstOver, DstOut, Xor, SrcOver, Plus, Screen, Exclusion and Difference return the
  destination pixel exactly. DstIn and DstATop multiply the destination by the source
  alpha and return the zero pixel there.
\<close>

theorem zero_source:
  assumes "lane l s = Px 0 0 0 0"
  shows "(M \<in> {Dst, DstOver, DstOut, Xor, SrcOver, Plus, Screen, Exclusion, Difference}
            \<longrightarrow> lane l (Xfer M s d) = lane l d) \<and>
         (M \<in> {DstIn, DstATop} \<longrightarrow> lane l (Xfer M s d) = Px 0 0 0 0)"
proof
  have z: "at s l c = 0" for c using assms by (rule zero_lane)
  have x: "div255_16 (ucast y * 255) = y" for y :: u8
  proof (rule div255_16_times_255)
    show "unat (ucast y * 255 :: u16) = 255 * unat y"
      using unat_lerp [of 0 0 y] by simp
  qed
  show "M \<in> {Dst, DstOver, DstOut, Xor, SrcOver, Plus, Screen, Exclusion, Difference}
           \<longrightarrow> lane l (Xfer M s d) = lane l d"
    by (auto simp add: lane_eq_iff at_ops z Let_def amd8_zero_left amd8_255_right
        sat_add8_zero_left div255_16_zero x)
  have e: "lane l v = Px 0 0 0 0" if "\<forall>c. at v l c = 0" for v :: Sk4px
    using that [rule_format, of B] that [rule_format, of G] that [rule_format, of R]
      that [rule_format, of A] by (simp add: at_def px.expand)
  show "M \<in> {DstIn, DstATop} \<longrightarrow> lane l (Xfer M s d) = Px 0 0 0 0"
    by (auto intro!: e simp add: at_ops z amd8_zero_right div255_16_zero)
qed

theorem zero_source_witness:
  "lane L1 (DupPMColor (Px 0 0 0 0)) = Px 0 0 0 (0::u8) \<and>
   Screen \<in> {Dst, DstOver, DstOut, Xor, SrcOver, Plus, Screen, Exclusion, Difference} \<and>
   lane L1 (Xfer Screen (DupPMColor (Px 0 0 0 0)) (DupPMColor (Px 10 20 30 40)))
     = lane L1 (DupPMColor (Px 10 20 30 40)) \<and>
   DstIn \<in> {DstIn, DstATop} \<and>
   lane L1 (Xfer DstIn (DupPMColor (Px 0 0 0 0)) (DupPMColor (Px 10 20 30 40))) = Px 0 0 0 0"
  using zero_source [of L1 "DupPMColor (Px 0 0 0 0)" Screen "DupPMColor (Px 10 20 30 40)"]
    zero_source [of L1 "DupPMColor (Px 0 0 0 0)" DstIn "DupPMColor (Px 10 20 30 40)"]
  by (simp add: DupPMColor_def)

text \<open>
  C4 as it is written fails for DstIn and DstATop: over an opaque white destination a
  zero source gives the zero pixel, not the destination.
\<close>

theorem zero_source_counterexample:
  "premul4 (DupPMColor (Px 255 255 255 255)) \<and>
   Xfer DstIn (DupPMColor (Px 0 0 0 0)) (DupPMColor (Px 255 255 255 255))
     \<noteq> DupPMColor (Px 255 255 255 255) \<and>
   Xfer DstATop (DupPMColor (Px 0 0 0 0)) (DupPMColor (Px 255 255 255 255))
     \<noteq> DupPMColor (Px 255 255 255 255)"
proof -
  have a: "at (Xfer DstIn (DupPMColor (Px 0 0 0 0)) (DupPMColor (Px 255 255 255 255))) L0 A = 0"
    by (simp add: at_ops amd8_zero_right)
  have b: "at (Xfer DstATop (DupPMColor (Px 0 0 0 0)) (DupPMColor (Px 255 255 255 255))) L0 A = 0"
    by (simp add: at_ops div255_16_zero)
  have c: "at (DupPMColor (Px 255 255 255 255)) L0 A = (255::u8)"
    by (simp add: at_ops)
  have p: "premul4 (DupPMColor (Px 255 255 255 255))"
    by (simp add: premul4_def premul_def DupPMColor_def)
  show ?thesis using a b c p by auto
qed

section \<open>The modes that \<^verbatim>\<open>SkCreate4pxXfermode\<close> handles\<close>

lemma switch_mode_full:
  "(\<exists>p. switch_mode False rec mode = Some (Create p rec) \<and> kMode p = mode)
     \<longleftrightarrow> mode \<in> set supported_modes"
  by (cases mode) (auto simp add: supported_modes_def Create_def)

lemma switch_mode_None: "switch_mode False rec mode = None \<longleftrightarrow> mode \<notin> set supported_modes"
  by (cases mode) (simp_all add: supported_modes_def)

lemma switch_mode_legacy:
  "(\<exists>p. switch_mode True rec mode = Some (Create p rec) \<and> kMode p = mode)
     \<longleftrightarrow> mode \<in> set supported_modes \<and> mode \<notin> set legacy_excluded_modes"
  by (cases mode) (auto simp add: supported_modes_def legacy_excluded_modes_def Create_def)

lemma switch_mode_legacy_None:
  "switch_mode True rec mode = None
     \<longleftrightarrow> mode \<in> set legacy_excluded_modes \<or> mode \<notin> set supported_modes"
  by (cases mode) (simp_all add: supported_modes_def legacy_excluded_modes_def)

text \<open>
  C7, as the code has it. What \<^verbatim>\<open>SkCreate4pxXfermode\<close> handles depends on the build.
  Where the switch is compiled (\<^verbatim>\<open>SK_CPU_ARM32\<close> undefined or \<^verbatim>\<open>SK_ARM_HAS_NEON\<close>
  defined) and \<^verbatim>\<open>SK_SUPPORT_LEGACY_XFERMODES\<close> is not defined, it handles exactly the 22
  listed modes: for each of them it returns the transfer mode of that very mode, and
  for every other mode identifier it returns \<^verbatim>\<open>nullptr\<close>. Where the switch is compiled
  and \<^verbatim>\<open>SK_SUPPORT_LEGACY_XFERMODES\<close> is defined, it handles the 18 listed modes other
  than HardLight, Overlay, Darken and Lighten, and returns \<^verbatim>\<open>nullptr\<close> for these four
  and for every mode that is not listed. On 32-bit ARM without NEON it returns
  \<^verbatim>\<open>nullptr\<close> for every mode. The function only builds an object from its two
  arguments; it has no pixel buffer in reach.
\<close>

theorem SkCreate4pxXfermode_handles:
  "((\<not> SK_CPU_ARM32 cfg \<or> SK_ARM_HAS_NEON cfg) \<and> \<not> SK_SUPPORT_LEGACY_XFERMODES cfg \<longrightarrow>
      (mode \<in> set supported_modes \<longrightarrow>
         (\<exists>p. SkCreate4pxXfermode cfg rec mode = Some (Create p rec) \<and> kMode p = mode)) \<and>
      (mode \<notin> set supported_modes \<longrightarrow> SkCreate4pxXfermode cfg rec mode = None)) \<and>
   ((\<not> SK_CPU_ARM32 cfg \<or> SK_ARM_HAS_NEON cfg) \<and> SK_SUPPORT_LEGACY_XFERMODES cfg \<longrightarrow>
      (mode \<in> set supported_modes \<and> mode \<notin> set legacy_excluded_modes \<longrightarrow>
         (\<exists>p. SkCreate4pxXfermode cfg rec mode = Some (Create p rec) \<and> kMode p = mode)) \<and>
      (mode \<in> set legacy_excluded_modes \<longrightarrow> SkCreate4pxXfermode cfg rec mode = None) \<and>
      (mode \<notin> set supported_modes \<longrightarrow> SkCreate4pxXfermode cfg rec mode = None)) \<and>
   (SK_CPU_ARM32 cfg \<and> \<not> SK_ARM_HAS_NEON cfg \<longrightarrow> SkCreate4pxXfermode cfg rec mode = None)"
proof (intro conjI impI)
  assume "(\<not> SK_CPU_ARM32 cfg \<or> SK_ARM_HAS_NEON cfg) \<and> \<not> SK_SUPPORT_LEGACY_XFERMODES cfg"
  then have e: "SkCreate4pxXfermode cfg rec mode = switch_mode False rec mode"
    by (simp add: SkCreate4pxXfermode_def)
  show "\<exists>p. SkCreate4pxXfermode cfg rec mode = Some (Create p rec) \<and> kMode p = mode"
    if "mode \<in> set supported_modes"
    unfolding e using that by (simp add: switch_mode_full)
  show "SkCreate4pxXfermode cfg rec mode = None" if "mode \<notin> set supported_modes"
    unfolding e using that by (simp add: switch_mode_None)
next
  assume "(\<not> SK_CPU_ARM32 cfg \<or> SK_ARM_HAS_NEON cfg) \<and> SK_SUPPORT_LEGACY_XFERMODES cfg"
  then have e: "SkCreate4pxXfermode cfg rec mode = switch_mode True rec mode"
    by (simp add: SkCreate4pxXfermode_def)
  show "\<exists>p. SkCreate4pxXfermode cfg rec mode = Some (Create p rec) \<and> kMode p = mode"
    if "mode \<in> set supported_modes \<and> mode \<notin> set legacy_excluded_modes"
    unfolding e using that by (simp add: switch_mode_legacy)
  show "SkCreate4pxXfermode cfg rec mode = None" if "mode \<in> set legacy_excluded_modes"
    unfolding e using that by (simp add: switch_mode_legacy_None)
  show "SkCreate4pxXfermode cfg rec mode = None" if "mode \<notin> set supported_modes"
    unfolding e using that by (simp add: switch_mode_legacy_None)
next
  assume "SK_CPU_ARM32 cfg \<and> \<not> SK_ARM_HAS_NEON cfg"
  then show "SkCreate4pxXfermode cfg rec mode = None"
    by (simp add: SkCreate4pxXfermode_def)
qed

theorem SkCreate4pxXfermode_handles_witness:
  "SK_ARM_HAS_NEON
       \<lparr>SK_CPU_ARM32 = True, SK_ARM_HAS_NEON = True, SK_SUPPORT_LEGACY_XFERMODES = False\<rparr> \<and>
   \<not> SK_SUPPORT_LEGACY_XFERMODES
       \<lparr>SK_CPU_ARM32 = True, SK_ARM_HAS_NEON = True, SK_SUPPORT_LEGACY_XFERMODES = False\<rparr> \<and>
   kHardLight_Mode \<in> set supported_modes \<and>
   SkCreate4pxXfermode
       \<lparr>SK_CPU_ARM32 = True, SK_ARM_HAS_NEON = True, SK_SUPPORT_LEGACY_XFERMODES = False\<rparr>
       () kHardLight_Mode = Some (Create HardLight ()) \<and>
   kOther_Mode 7 \<notin> set supported_modes \<and>
   SkCreate4pxXfermode
       \<lparr>SK_CPU_ARM32 = True, SK_ARM_HAS_NEON = True, SK_SUPPORT_LEGACY_XFERMODES = False\<rparr>
       () (kOther_Mode 7) = None \<and>
   \<not> SK_CPU_ARM32
       \<lparr>SK_CPU_ARM32 = False, SK_ARM_HAS_NEON = False, SK_SUPPORT_LEGACY_XFERMODES = True\<rparr> \<and>
   SK_SUPPORT_LEGACY_XFERMODES
       \<lparr>SK_CPU_ARM32 = False, SK_ARM_HAS_NEON = False, SK_SUPPORT_LEGACY_XFERMODES = True\<rparr> \<and>
   kSrcOver_Mode \<in> set supported_modes \<and> kSrcOver_Mode \<notin> set legacy_excluded_modes \<and>
   SkCreate4pxXfermode
       \<lparr>SK_CPU_ARM32 = False, SK_ARM_HAS_NEON = False, SK_SUPPORT_LEGACY_XFERMODES = True\<rparr>
       () kSrcOver_Mode = Some (Create SrcOver ()) \<and>
   kOverlay_Mode \<in> set legacy_excluded_modes \<and>
   SkCreate4pxXfermode
       \<lparr>SK_CPU_ARM32 = False, SK_ARM_HAS_NEON = False, SK_SUPPORT_LEGACY_XFERMODES = True\<rparr>
       () kOverlay_Mode = None \<and>
   SkCreate4pxXfermode
       \<lparr>SK_CPU_ARM32 = False, SK_ARM_HAS_NEON = False, SK_SUPPORT_LEGACY_XFERMODES = True\<rparr>
       () (kOther_Mode 7) = None \<and>
   SK_CPU_ARM32
       \<lparr>SK_CPU_ARM32 = True, SK_ARM_HAS_NEON = False, SK_SUPPORT_LEGACY_XFERMODES = False\<rparr> \<and>
   \<not> SK_ARM_HAS_NEON
       \<lparr>SK_CPU_ARM32 = True, SK_ARM_HAS_NEON = False, SK_SUPPORT_LEGACY_XFERMODES = False\<rparr> \<and>
   SkCreate4pxXfermode
       \<lparr>SK_CPU_ARM32 = True, SK_ARM_HAS_NEON = False, SK_SUPPORT_LEGACY_XFERMODES = False\<rparr>
       () kSrc_Mode = None"
proof -
  let ?full = "\<lparr>SK_CPU_ARM32 = True, SK_ARM_HAS_NEON = True, SK_SUPPORT_LEGACY_XFERMODES = False\<rparr>"
  let ?legacy = "\<lparr>SK_CPU_ARM32 = False, SK_ARM_HAS_NEON = False, SK_SUPPORT_LEGACY_XFERMODES = True\<rparr>"
  let ?arm = "\<lparr>SK_CPU_ARM32 = True, SK_ARM_HAS_NEON = False, SK_SUPPORT_LEGACY_XFERMODES = False\<rparr>"
  have m: "kHardLight_Mode \<in> set supported_modes" "kOther_Mode 7 \<notin> set supported_modes"
    "kSrcOver_Mode \<in> set supported_modes" "kSrcOver_Mode \<notin> set legacy_excluded_modes"
    "kOverlay_Mode \<in> set legacy_excluded_modes"
    by (simp_all add: supported_modes_def legacy_excluded_modes_def)
  have 1: "\<exists>p. SkCreate4pxXfermode ?full () kHardLight_Mode = Some (Create p ()) \<and> kMode p = kHardLight_Mode"
    using SkCreate4pxXfermode_handles [of ?full kHardLight_Mode "()"] m by simp
  have 2: "SkCreate4pxXfermode ?full () (kOther_Mode 7) = None"
    using SkCreate4pxXfermode_handles [of ?full "kOther_Mode 7" "()"] m by simp
  have 3: "\<exists>p. SkCreate4pxXfermode ?legacy () kSrcOver_Mode = Some (Create p ()) \<and> kMode p = kSrcOver_Mode"
    using SkCreate4pxXfermode_handles [of ?legacy kSrcOver_Mode "()"] m by simp
  have 4: "SkCreate4pxXfermode ?legacy () kOverlay_Mode = None"
    using SkCreate4pxXfermode_handles [of ?legacy kOverlay_Mode "()"] m by simp
  have 5: "SkCreate4pxXfermode ?legacy () (kOther_Mode 7) = None"
    using SkCreate4pxXfermode_handles [of ?legacy "kOther_Mode 7" "()"] m by simp
  have 6: "SkCreate4pxXfermode ?arm () kSrc_Mode = None"
    using SkCreate4pxXfermode_handles [of ?arm kSrc_Mode "()"] by simp
  have k: "kMode p = kHardLight_Mode \<longleftrightarrow> p = HardLight" for p
    by (cases p) simp_all
  have k': "kMode p = kSrcOver_Mode \<longleftrightarrow> p = SrcOver" for p
    by (cases p) simp_all
  from 1 have a1: "SkCreate4pxXfermode ?full () kHardLight_Mode = Some (Create HardLight ())"
    by (auto simp add: k)
  from 3 have a3: "SkCreate4pxXfermode ?legacy () kSrcOver_Mode = Some (Create SrcOver ())"
    by (auto simp add: k')
  show ?thesis using m a1 2 a3 4 5 6 by simp
qed

text \<open>
  C7 as it is written fails where \<^verbatim>\<open>SK_SUPPORT_LEGACY_XFERMODES\<close> is defined: in a build
  that compiles the switch, the listed modes HardLight, Overlay, Darken and Lighten
  are not handled.
\<close>

theorem SkCreate4pxXfermode_counterexample:
  "\<not> SK_CPU_ARM32
       \<lparr>SK_CPU_ARM32 = False, SK_ARM_HAS_NEON = False, SK_SUPPORT_LEGACY_XFERMODES = True\<rparr> \<and>
   kHardLight_Mode \<in> set supported_modes \<and>
   SkCreate4pxXfermode
     \<lparr>SK_CPU_ARM32 = False, SK_ARM_HAS_NEON = False, SK_SUPPORT_LEGACY_XFERMODES = True\<rparr>
     () kHardLight_Mode = None \<and>
   kOverlay_Mode \<in> set supported_modes \<and>
   SkCreate4pxXfermode
     \<lparr>SK_CPU_ARM32 = False, SK_ARM_HAS_NEON = False, SK_SUPPORT_LEGACY_XFERMODES = True\<rparr>
     () kOverlay_Mode = None \<and>
   kDarken_Mode \<in> set supported_modes \<and>
   SkCreate4pxXfermode
     \<lparr>SK_CPU_ARM32 = False, SK_ARM_HAS_NEON = False, SK_SUPPORT_LEGACY_XFERMODES = True\<rparr>
     () kDarken_Mode = None \<and>
   kLighten_Mode \<in> set supported_modes \<and>
   SkCreate4pxXfermode
     \<lparr>SK_CPU_ARM32 = False, SK_ARM_HAS_NEON = False, SK_SUPPORT_LEGACY_XFERMODES = True\<rparr>
     () kLighten_Mode = None"
  by (simp add: supported_modes_def SkCreate4pxXfermode_def)

section \<open>Rounded division by 255 and the alpha of the exact modes\<close>

lemma round255_split: "\<exists>r<255. P + 127 = 255 * round255 P + r"
proof -
  have "P + 127 = 255 * ((P + 127) div 255) + (P + 127) mod 255" by simp
  moreover have "(P + 127) mod 255 < 255" by simp
  ultimately show ?thesis unfolding round255_def by blast
qed

lemma round255_eqI: "r < 255 \<Longrightarrow> P + 127 = 255 * q + r \<Longrightarrow> round255 P = q"
  unfolding round255_def by simp

lemma round255_le: "P \<le> 255 * K \<Longrightarrow> round255 P \<le> K"
proof -
  assume a: "P \<le> 255 * K"
  obtain r where r: "r < 255" "P + 127 = 255 * round255 P + r"
    using round255_split by blast
  have "255 * round255 P < 255 * K + 255" using a r by linarith
  then have "255 * round255 P < 255 * (K + 1)" by simp
  then show ?thesis by simp
qed

lemma round255_mono: "P \<le> Q \<Longrightarrow> round255 P \<le> round255 Q"
  unfolding round255_def by (simp add: div_le_mono)

lemma round_compl: "P \<le> 255 * K \<Longrightarrow> round255 (255 * K - P) = K - round255 P"
proof -
  assume a: "P \<le> 255 * K"
  obtain r where r: "r < 255" "P + 127 = 255 * round255 P + r"
    using round255_split by blast
  have q: "round255 P \<le> K" using a by (rule round255_le)
  then obtain j where j: "K = round255 P + j" using le_Suc_ex by blast
  have "255 * K = 255 * round255 P + 255 * j" by (simp add: j)
  then have "(255 * K - P) + 127 = 255 * j + (254 - r)"
    using a r by linarith
  moreover have "254 - r < 255" by simp
  ultimately have "round255 (255 * K - P) = j" by (rule round255_eqI [rotated])
  then show ?thesis using j by simp
qed

lemma union_le:
  assumes "sa \<le> 255" "da \<le> 255"
  shows "sa + da \<le> 255 + round255 (sa * da)"
proof -
  obtain a where a: "sa + a = 255" using assms(1) by (auto simp add: le_iff_add)
  obtain b where b: "da + b = 255" using assms(2) by (auto simp add: le_iff_add)
  have "(sa + a) * (da + b) = 65025" by (simp add: a b)
  then have e: "sa * da + sa * b + a * da + a * b = 65025"
    by (simp add: algebra_simps)
  have "255 * sa = sa * (da + b)" by (simp add: b)
  then have 1: "255 * sa = sa * da + sa * b" by (simp add: algebra_simps)
  have "255 * da = (sa + a) * da" by (simp add: a)
  then have 2: "255 * da = sa * da + a * da" by (simp add: algebra_simps)
  obtain r where r: "r < 255" "sa * da + 127 = 255 * round255 (sa * da) + r"
    using round255_split by blast
  have "255 * sa + 255 * da \<le> 65025 + sa * da" using e 1 2 by linarith
  then have "255 * sa + 255 * da < 65280 + 255 * round255 (sa * da)" using r by linarith
  then have "255 * (sa + da) < 255 * (256 + round255 (sa * da))" by simp
  then show ?thesis by simp
qed

lemma compl_prod: "a \<le> 255 \<Longrightarrow> b * (255 - a) = 255 * b - a * (b::nat)"
  by (simp add: diff_mult_distrib2 mult.commute)


lemma unat_add16_fits: "unat a + unat b < 65536 \<Longrightarrow> unat (a + b :: u16) = unat a + unat b"
  by (simp add: unat_add16)

lemma unat_add8_fits: "unat a + unat b < 256 \<Longrightarrow> unat (a + b :: u8) = unat a + unat b"
  by (simp add: unat_add8)

lemma unat_sub8_fits: "unat b \<le> unat a \<Longrightarrow> unat (a - b :: u8) = unat a - unat b"
  by (simp add: unat_sub word_le_nat_alt)

lemma unat_div255_mul: "unat (div255_16 (ucast (x::u8) * ucast (y::u8))) = round255 (unat x * unat y)"
  using unat_div255 [of "ucast x * ucast y"] prod_le [of x y] by (simp only: unat_mul16)

text \<open>\<open>x + (y * ~a).div255()\<close>, the shape of \<^verbatim>\<open>srcover\<close> and \<^verbatim>\<open>dstover\<close>.\<close>

lemma unat_over:
  assumes "unat x + round255 (unat y * (255 - unat a)) \<le> 255"
  shows "unat (x + div255_16 (ucast (y::u8) * ucast (255 - a :: u8)) :: u8)
           = unat x + round255 (unat y * (255 - unat a))"
proof -
  have "unat (div255_16 (ucast y * ucast (255 - a))) = round255 (unat y * (255 - unat a))"
    by (simp only: unat_div255_mul unat_inv8)
  then show ?thesis using assms by (simp add: unat_add8_fits)
qed

lemma over_alpha_nat:
  assumes "sa \<le> 255" "da \<le> 255"
  shows "sa + round255 (da * (255 - sa)) = sa + da - round255 (sa * da)"
    and "sa + round255 (da * (255 - sa)) \<le> 255"
proof -
  have p: "sa * da \<le> 255 * da" using assms(1) by simp
  have "round255 (da * (255 - sa)) = round255 (255 * da - sa * da)"
    using assms(1) by (simp only: compl_prod)
  also have "\<dots> = da - round255 (sa * da)" using p by (rule round_compl)
  finally have e: "round255 (da * (255 - sa)) = da - round255 (sa * da)" .
  have r: "round255 (sa * da) \<le> da" using p by (rule round255_le)
  show "sa + round255 (da * (255 - sa)) = sa + da - round255 (sa * da)"
    using e r by simp
  show "sa + round255 (da * (255 - sa)) \<le> 255"
    using e r union_le [OF assms] by simp
qed

lemma unat_over_alpha:
  "unat (x + div255_16 (ucast (y::u8) * ucast (255 - x :: u8)) :: u8)
     = unat x + unat y - round255 (unat x * unat y)"
  using unat_over [of x y x] over_alpha_nat [of "unat x" "unat y"] u8_le [of x] u8_le [of y]
  by simp

lemma mul3_nat:
  assumes "sa \<le> 255" "da \<le> (255::nat)"
  shows "sa * (255 - da) + da * (255 - sa) + sa * da = 255 * (sa + da) - sa * da"
    and "sa * (255 - da) + da * (255 - sa) + sa * da \<le> 65025"
proof -
  obtain a where a: "sa + a = 255" using assms(1) by (auto simp add: le_iff_add)
  obtain b where b: "da + b = 255" using assms(2) by (auto simp add: le_iff_add)
  have a': "255 - sa = a" and b': "255 - da = b" using a b by simp_all
  have "(sa + a) * (da + b) = 65025" by (simp add: a b)
  then have e: "sa * da + sa * b + a * da + a * b = 65025"
    by (simp add: algebra_simps)
  have "255 * sa = sa * (da + b)" by (simp add: b)
  then have 1: "255 * sa = sa * da + sa * b" by (simp add: algebra_simps)
  have "255 * da = (sa + a) * da" by (simp add: a)
  then have 2: "255 * da = sa * da + da * a" by (simp add: algebra_simps)
  have "sa * b + da * a + sa * da = 255 * sa + 255 * da - sa * da"
    using 1 2 by linarith
  then show "sa * (255 - da) + da * (255 - sa) + sa * da = 255 * (sa + da) - sa * da"
    by (simp add: a' b')
  have "sa * b + da * a + sa * da \<le> 65025"
    using e by (simp add: mult.commute)
  then show "sa * (255 - da) + da * (255 - sa) + sa * da \<le> 65025"
    by (simp add: a' b')
qed

lemma unat_Multiply_alpha:
  "unat (div255_16 (ucast (x::u8) * ucast (255 - y :: u8) + ucast y * ucast (255 - x) + ucast x * ucast y))
     = unat x + unat y - round255 (unat x * unat y)"
proof -
  let ?S = "unat x * (255 - unat y) + unat y * (255 - unat x) + unat x * unat y"
  have s: "?S = 255 * (unat x + unat y) - unat x * unat y" and b: "?S \<le> 65025"
    using mul3_nat [of "unat x" "unat y"] u8_le [of x] u8_le [of y] by simp_all
  have 1: "unat ((ucast x :: u16) * ucast (255 - y) + ucast y * ucast (255 - x))
         = unat x * (255 - unat y) + unat y * (255 - unat x)"
    using b by (simp add: unat_add16_fits unat_mul16 unat_inv8)
  have w: "unat ((ucast x :: u16) * ucast (255 - y) + ucast y * ucast (255 - x) + ucast x * ucast y) = ?S"
    using b by (simp add: unat_add16_fits 1 unat_mul16)
  have p: "unat x * unat y \<le> 255 * (unat x + unat y)"
    using u8_le [of y] by (simp add: algebra_simps trans_le_add1)
  have "unat (div255_16 (ucast x * ucast (255 - y) + ucast y * ucast (255 - x) + ucast x * ucast y))
      = round255 ?S"
    using unat_div255 [of "ucast x * ucast (255 - y) + ucast y * ucast (255 - x) + ucast x * ucast y"] b w
    by simp
  also have "\<dots> = round255 (255 * (unat x + unat y) - unat x * unat y)" by (simp only: s)
  also have "\<dots> = (unat x + unat y) - round255 (unat x * unat y)" using p by (rule round_compl)
  finally show ?thesis .
qed

lemma unat_Difference_alpha:
  "unat (x - div255_16 (min (ucast (x::u8) * ucast (y::u8)) (ucast y * ucast x)) + (y - 0) :: u8)
     = unat x + unat y - round255 (unat x * unat y)"
proof -
  let ?q = "round255 (unat x * unat y)"
  have m: "unat (div255_16 (min (ucast x * ucast y) (ucast y * ucast x))) = ?q"
    by (simp add: mult.commute unat_div255_mul)
  have 1: "?q \<le> unat x" using u8_le [of y] by (intro round255_le) (simp add: mult.commute)
  have 2: "?q \<le> unat y" using u8_le [of x] by (intro round255_le) simp
  have 3: "unat x + unat y \<le> 255 + ?q"
    using u8_le [of x] u8_le [of y] by (rule union_le)
  have "unat (x - div255_16 (min (ucast x * ucast y) (ucast y * ucast x))) = unat x - ?q"
    using 1 m by (simp add: unat_sub8_fits)
  then show ?thesis using 1 2 3 by (simp add: unat_add8_fits)
qed

lemma union_alpha_nat:
  "n = unat x + unat y - round255 (unat x * unat y) \<Longrightarrow> int n = union_alpha x y"
proof -
  assume n: "n = unat x + unat y - round255 (unat x * unat y)"
  have "round255 (unat x * unat y) \<le> unat y"
    using u8_le [of x] by (intro round255_le) simp
  then show ?thesis by (simp add: n union_alpha_def of_nat_diff)
qed

section \<open>Arithmetic behind the kernels\<close>

text \<open>The quotient \<open>(x * y + x) div 256\<close> that \<^verbatim>\<open>approxMulDiv255\<close> computes.\<close>

lemma amd_nat_mono:
  "x \<le> a \<Longrightarrow> y \<le> b \<Longrightarrow> (x * y + x) div 256 \<le> (a * b + a) div (256::nat)"
  by (intro div_le_mono add_mono mult_mono) simp_all

lemma amd_nat_le_left: "y \<le> 255 \<Longrightarrow> (x * y + x) div 256 \<le> (x::nat)"
proof -
  assume "y \<le> 255"
  then have "x * y \<le> 255 * x" by simp
  then have "x * y + x < 256 * x + 256" by linarith
  then have "x * y + x < (x + 1) * 256" by simp
  then have "(x * y + x) div 256 < x + 1" by (rule less_mult_imp_div_less)
  then show ?thesis by simp
qed

lemma amd_nat_le_right: "x \<le> 255 \<Longrightarrow> (x * y + x) div 256 \<le> (y::nat)"
proof -
  assume "x \<le> 255"
  then have "x * y \<le> 255 * y" by simp
  then have "x * y + x < 256 * y + 256" using \<open>x \<le> 255\<close> by linarith
  then have "x * y + x < (y + 1) * 256" by simp
  then have "(x * y + x) div 256 < y + 1" by (rule less_mult_imp_div_less)
  then show ?thesis by simp
qed

lemma amd_nat_inv_le:
  assumes "a \<le> 255" "b \<le> (255::nat)"
  shows "(b * (255 - a) + b) div 256 \<le> 255 - a"
  using assms(2) by (rule amd_nat_le_right)

lemma screen_nat:
  assumes "x \<le> a" "a \<le> 255" "y \<le> b" "b \<le> (255::nat)"
  shows "x + (y * (255 - x) + y) div 256 \<le> a + (b * (255 - a) + b) div 256"
proof -
  obtain k where k: "a = x + k" using assms(1) by (auto simp add: le_iff_add)
  obtain a' where a': "255 = x + k + a'" using assms(2) k by (auto simp add: le_iff_add)
  have 1: "255 - x = k + a'" and 2: "255 - (x + k) = a'" using a' by simp_all
  have "b * k \<le> 256 * k" using assms(4) by simp
  then have "256 * x + (b * (k + a') + b) \<le> 256 * (x + k) + (b * a' + b)"
    by (simp add: algebra_simps)
  then have "(256 * x + (b * (k + a') + b)) div 256 \<le> (256 * (x + k) + (b * a' + b)) div 256"
    by (rule div_le_mono)
  then have "x + (b * (k + a') + b) div 256 \<le> (x + k) + (b * a' + b) div 256"
    by simp
  moreover have "(y * (k + a') + y) div 256 \<le> (b * (k + a') + b) div 256"
    using assms(3) by (intro div_le_mono add_mono mult_mono) simp_all
  ultimately show ?thesis by (simp add: 1 2 k)
qed

lemma excl_nat_alpha:
  assumes "a \<le> 255" "b \<le> (255::nat)"
  shows "a + b \<le> 255 + (a * b + a) div 256"
proof -
  obtain a' where a': "a + a' = 255" using assms(1) by (auto simp add: le_iff_add)
  obtain b' where b': "b + b' = 255" using assms(2) by (auto simp add: le_iff_add)
  have "(a + a') * (b + b') = 65025" by (simp add: a' b')
  then have e: "a * b + a * b' + a' * b + a' * b' = 65025"
    by (simp add: algebra_simps)
  have "255 * a = a * (b + b')" by (simp add: b')
  then have 1: "255 * a = a * b + a * b'" by (simp add: algebra_simps)
  have "255 * b = (a + a') * b" by (simp add: a')
  then have 2: "255 * b = a * b + a' * b" by (simp add: algebra_simps)
  have "256 * a + 256 * b \<le> 65280 + (a * b + a)" using e 1 2 assms by linarith
  then have "256 * (a + b) \<le> 256 * 255 + (a * b + a)" by simp
  then have "(256 * (a + b)) div 256 \<le> (256 * 255 + (a * b + a)) div 256"
    by (rule div_le_mono)
  then show ?thesis by simp
qed

lemma excl_nat_step:
  assumes "x \<le> a" "a \<le> 255" "y \<le> b" "b \<le> (255::nat)"
  shows "(a * b + a) div 256 \<le> (x * y + x) div 256 + (a - x) + (b - y)"
proof -
  obtain i where i: "a = x + i" using assms(1) by (auto simp add: le_iff_add)
  obtain j where j: "b = y + j" using assms(3) by (auto simp add: le_iff_add)
  have x: "x \<le> 255" using assms i by simp
  have "(x + i) * (y + j) + (x + i) = (x * y + x) + x * j + i * (y + j + 1)"
    by (simp add: algebra_simps)
  moreover have "x * j \<le> 255 * j" using x by simp
  moreover have "i * (y + j + 1) \<le> 256 * i" using assms(4) j by simp
  ultimately have "(x + i) * (y + j) + (x + i) \<le> (x * y + x) + (256 * i + 256 * j)"
    by linarith
  then have "(x + i) * (y + j) + (x + i) \<le> (x * y + x) + 256 * (i + j)"
    by simp
  then have "((x + i) * (y + j) + (x + i)) div 256 \<le> ((x * y + x) + 256 * (i + j)) div 256"
    by (rule div_le_mono)
  then show ?thesis by (simp add: i j)
qed

lemma round255_add: "round255 (255 * k + n) = k + round255 n"
  by (simp add: round255_def add.assoc)

lemma round255_step: "P \<le> Q + 255 * k \<Longrightarrow> round255 P \<le> round255 Q + k"
proof -
  assume "P \<le> Q + 255 * k"
  then have "round255 P \<le> round255 (255 * k + Q)" by (intro round255_mono) simp
  then show ?thesis by (simp add: round255_add)
qed

lemma atop_nat:
  assumes "x \<le> a" "a \<le> 255" "y \<le> (b::nat)"
  shows "x * b + y * (255 - a) \<le> 255 * b"
proof -
  obtain a' where a': "a + a' = 255" using assms(2) by (auto simp add: le_iff_add)
  have 1: "x * b \<le> a * b" using assms(1) by simp
  have 2: "y * a' \<le> b * a'" using assms(3) by simp
  have "b * (a + a') = 255 * b" by (simp add: a')
  then have "a * b + b * a' = 255 * b" by (simp add: algebra_simps)
  then have "x * b + y * a' \<le> 255 * b" using 1 2 by linarith
  moreover have "255 - a = a'" using a' by simp
  ultimately show ?thesis by simp
qed

lemma xor_nat:
  assumes "x \<le> a" "a \<le> 255" "y \<le> b" "b \<le> (255::nat)"
  shows "x * (255 - b) + y * (255 - a) \<le> a * (255 - b) + b * (255 - a)"
    and "a * (255 - b) + b * (255 - a) \<le> 65025"
proof -
  show "x * (255 - b) + y * (255 - a) \<le> a * (255 - b) + b * (255 - a)"
    using assms(1,3) by (intro add_mono mult_le_mono) simp_all
  obtain b' where b': "b + b' = 255" using assms(4) by (auto simp add: le_iff_add)
  have 1: "a * b' \<le> 255 * b'" using assms(2) by simp
  have 2: "b * (255 - a) \<le> b * 255" by simp
  have "a * b' + b * (255 - a) \<le> 255 * b' + 255 * b" using 1 2 by linarith
  also have "\<dots> = 255 * (b + b')" by simp
  finally have "a * b' + b * (255 - a) \<le> 65025" by (simp add: b')
  moreover have "255 - b = b'" using b' by simp
  ultimately show "a * (255 - b) + b * (255 - a) \<le> 65025" by simp
qed

lemma mul3_mono:
  assumes "x \<le> a" "y \<le> (b::nat)"
  shows "x * (255 - b) + y * (255 - a) + x * y \<le> a * (255 - b) + b * (255 - a) + a * b"
  using assms by (intro add_mono mult_le_mono) simp_all

lemma over_nat_mono:
  assumes "x \<le> a" "y \<le> (b::nat)"
  shows "x + round255 (y * (255 - a)) \<le> a + round255 (b * (255 - a))"
  using assms by (intro add_mono round255_mono mult_le_mono) simp_all

lemma over_nat_sym:
  assumes "a \<le> 255" "b \<le> 255"
  shows "b + round255 (a * (255 - b)) = a + round255 (b * (255 - a))"
  using over_alpha_nat(1) [OF assms] over_alpha_nat(1) [OF assms(2,1)]
  by (simp add: add.commute mult.commute)

lemma hl_alpha_bound:
  assumes "a \<le> 255" "b \<le> (255::nat)"
  shows "255 * a + b * (255 - a) \<le> 65025"
proof -
  obtain a' where a': "a + a' = 255" using assms(1) by (auto simp add: le_iff_add)
  have "b * a' \<le> 255 * a'" using assms(2) by simp
  then have "255 * a + b * a' \<le> 255 * a + 255 * a'" by linarith
  also have "\<dots> = 255 * (a + a')" by simp
  finally have "255 * a + b * a' \<le> 65025" by (simp add: a')
  moreover have "255 - a = a'" using a' by simp
  ultimately show ?thesis by simp
qed

lemma hl_dark_core:
  assumes "x \<le> i" "y + j + b' = (255::nat)"
  shows "x * b' + y * a' + 2 * (x * y) \<le> 255 * (x + i) + (y + j) * a'"
proof -
  have y: "y \<le> 255" using assms(2) by simp
  have "x * (y + j + b') = 255 * x" by (simp add: assms(2))
  then have e: "x * y + x * j + x * b' = 255 * x" by (simp add: algebra_simps)
  have "x * y \<le> i * 255" using assms(1) y by (rule mult_le_mono)
  then have p: "x * y \<le> 255 * i" by simp
  have "x * b' + y * a' + 2 * (x * y) \<le> 255 * x + 255 * i + (y * a' + j * a')"
    using e p by linarith
  then show ?thesis by (simp add: algebra_simps)
qed

lemma hl_dark_nat:
  assumes "x \<le> a" "a \<le> 255" "y \<le> b" "b \<le> (255::nat)" "\<not> a - x < x"
  shows "x * (255 - b) + y * (255 - a) + 2 * (x * y) \<le> 255 * a + b * (255 - a)"
proof -
  obtain i where i: "a = x + i" using assms(1) by (auto simp add: le_iff_add)
  obtain j where j: "b = y + j" using assms(3) by (auto simp add: le_iff_add)
  obtain b' where b': "y + j + b' = 255" using assms(4) j by (auto simp add: le_iff_add)
  have xi: "x \<le> i" using assms(5) i by simp
  have 1: "255 - (y + j) = b'" using b' by simp
  show ?thesis unfolding i j 1 using xi b' by (rule hl_dark_core)
qed

lemma hl_lite_core:
  assumes "i \<le> x" "y + j + b' = (255::nat)"
  shows "2 * (j * i) \<le> (x + i) * (y + j)"
    and "x * b' + y * a' + ((x + i) * (y + j) - 2 * (j * i)) \<le> 255 * (x + i) + (y + j) * a'"
proof -
  have y: "y \<le> 255" using assms(2) by simp
  have ab: "(x + i) * (y + j) = x * y + x * j + i * y + j * i" by (simp add: algebra_simps)
  have ij: "j * i \<le> x * j" using assms(1) by (simp add: mult.commute)
  show l: "2 * (j * i) \<le> (x + i) * (y + j)" using ab ij by linarith
  have "x * (y + j + b') = 255 * x" by (simp add: assms(2))
  then have e: "x * y + x * j + x * b' = 255 * x" by (simp add: algebra_simps)
  have iy: "i * y \<le> 255 * i" using y by simp
  have "x * b' + y * a' + ((x + i) * (y + j) - 2 * (j * i))
      \<le> 255 * x + 255 * i + (y * a' + j * a')"
    using ab l e iy by linarith
  then show "x * b' + y * a' + ((x + i) * (y + j) - 2 * (j * i)) \<le> 255 * (x + i) + (y + j) * a'"
    by (simp add: algebra_simps)
qed

lemma hl_lite_nat:
  assumes "x \<le> a" "a \<le> 255" "y \<le> b" "b \<le> (255::nat)" "a - x < x"
  shows "2 * ((b - y) * (a - x)) \<le> a * b"
    and "x * (255 - b) + y * (255 - a) + (a * b - 2 * ((b - y) * (a - x))) \<le> 255 * a + b * (255 - a)"
proof -
  obtain i where i: "a = x + i" using assms(1) by (auto simp add: le_iff_add)
  obtain j where j: "b = y + j" using assms(3) by (auto simp add: le_iff_add)
  obtain b' where b': "y + j + b' = 255" using assms(4) j by (auto simp add: le_iff_add)
  have ix: "i \<le> x" using assms(5) i by simp
  have 1: "255 - (y + j) = b'" and 2: "y + j - y = j" and 3: "x + i - x = i"
    using b' by simp_all
  show "2 * ((b - y) * (a - x)) \<le> a * b"
    unfolding i j 2 3 using ix b' by (rule hl_lite_core(1))
  show "x * (255 - b) + y * (255 - a) + (a * b - 2 * ((b - y) * (a - x))) \<le> 255 * a + b * (255 - a)"
    unfolding i j 1 2 3 using ix b' by (rule hl_lite_core(2))
qed

lemma diff_nat:
  assumes "x \<le> a" "a \<le> 255" "y \<le> b" "b \<le> (255::nat)"
  shows "round255 (min (x * b) (y * a)) \<le> x"
    and "round255 (min (x * b) (y * a)) \<le> y"
    and "(x - round255 (min (x * b) (y * a))) + (y - round255 (min (x * b) (y * a)))
           \<le> (a - round255 (a * b)) + b"
proof -
  let ?m = "round255 (min (x * b) (y * a))"
  let ?q = "round255 (a * b)"
  have "min (x * b) (y * a) \<le> x * b" by simp
  also have "\<dots> \<le> 255 * x" using assms(4) by simp
  finally show mx: "?m \<le> x" by (rule round255_le)
  have "min (x * b) (y * a) \<le> y * a" by simp
  also have "\<dots> \<le> 255 * y" using assms(2) by simp
  finally show my: "?m \<le> y" by (rule round255_le)
  have qa: "?q \<le> a" using assms(4) by (intro round255_le) simp
  have qb: "?q \<le> b" using assms(2) by (intro round255_le) simp
  show "(x - ?m) + (y - ?m) \<le> (a - ?q) + b"
  proof (cases "x * b \<le> y * a")
    case True
    obtain i where i: "a = x + i" using assms(1) by (auto simp add: le_iff_add)
    have "i * b \<le> 255 * i" using assms(4) by simp
    then have "a * b \<le> x * b + 255 * i" by (simp add: i algebra_simps)
    then have "?q \<le> round255 (x * b) + i" by (rule round255_step)
    moreover have "?m = round255 (x * b)" using True by (simp add: min_def)
    ultimately show ?thesis using mx my qa assms i by linarith
  next
    case False
    obtain j where j: "b = y + j" using assms(3) by (auto simp add: le_iff_add)
    have "a * j \<le> 255 * j" using assms(2) by simp
    then have "a * b \<le> y * a + 255 * j" by (simp add: j algebra_simps)
    then have "?q \<le> round255 (y * a) + j" by (rule round255_step)
    moreover have "?m = round255 (y * a)" using False by (simp add: min_def)
    ultimately show ?thesis using mx my qb assms j by linarith
  qed
qed

section \<open>Single lanes of the kernels\<close>

lemma unat_add8_le:
  "unat x + unat p \<le> n \<Longrightarrow> n \<le> 255 \<Longrightarrow> unat (x + p :: u8) = unat x + unat p"
  by (simp add: unat_add8_fits)

lemma unat_wide2:
  assumes "unat x * unat p + unat y * unat q \<le> 65025"
  shows "unat (ucast (x::u8) * ucast (p::u8) + ucast (y::u8) * ucast (q::u8) :: u16)
           = unat x * unat p + unat y * unat q"
  using assms by (simp add: unat_add16_fits unat_mul16)

lemma unat_wide3:
  assumes "unat x * unat p + unat y * unat q + unat z * unat r \<le> 65025"
  shows "unat (ucast (x::u8) * ucast (p::u8) + ucast (y::u8) * ucast (q::u8)
               + ucast (z::u8) * ucast (r::u8) :: u16)
           = unat x * unat p + unat y * unat q + unat z * unat r"
proof -
  have "unat x * unat p + unat y * unat q \<le> 65025" using assms by simp
  then have "unat (ucast x * ucast p + ucast y * ucast q :: u16)
      = unat x * unat p + unat y * unat q" by (rule unat_wide2)
  then show ?thesis using assms by (simp add: unat_add16_fits unat_mul16)
qed

lemma div255_16_mono:
  assumes "unat v \<le> unat w" "unat w \<le> 65025"
  shows "div255_16 v \<le> div255_16 w"
proof -
  have "unat v \<le> 65025" using assms by simp
  then show ?thesis
    using assms by (simp add: word_le_nat_alt unat_div255 round255_mono)
qed

lemma amd8_mono: "x \<le> a \<Longrightarrow> y \<le> b \<Longrightarrow> amd8 x y \<le> amd8 a b"
  by (simp add: word_le_nat_alt unat_amd8 amd_nat_mono)

lemma SrcOver_byte:
  fixes x a y b :: u8
  assumes "x \<le> a" "y \<le> b"
  shows "x + amd8 y (255 - a) \<le> a + amd8 b (255 - a)"
proof -
  have b: "unat a + unat (amd8 b (255 - a)) \<le> 255"
    using amd_nat_inv_le [of "unat a" "unat b"] u8_le [of a] u8_le [of b]
    by (simp add: unat_amd8 unat_inv8)
  have m: "unat (amd8 y (255 - a)) \<le> unat (amd8 b (255 - a))"
    using amd8_mono [OF assms(2), of "255 - a" "255 - a"] by (simp add: word_le_nat_alt)
  have x: "unat x \<le> unat a" using assms(1) by (simp add: word_le_nat_alt)
  have l: "unat x + unat (amd8 y (255 - a)) \<le> unat a + unat (amd8 b (255 - a))"
    using x m by (rule add_mono)
  have "unat (x + amd8 y (255 - a)) = unat x + unat (amd8 y (255 - a))"
    using l b by (rule unat_add8_le [OF order_trans order_refl])
  moreover have "unat (a + amd8 b (255 - a)) = unat a + unat (amd8 b (255 - a))"
    using b by (rule unat_add8_le [OF order_refl])
  ultimately show ?thesis using l by (simp add: word_le_nat_alt)
qed

lemma Screen_byte:
  fixes x a y b :: u8
  assumes "x \<le> a" "y \<le> b"
  shows "x + amd8 y (255 - x) \<le> a + amd8 b (255 - a)"
proof -
  have b: "unat a + unat (amd8 b (255 - a)) \<le> 255"
    using amd_nat_inv_le [of "unat a" "unat b"] u8_le [of a] u8_le [of b]
    by (simp add: unat_amd8 unat_inv8)
  have l: "unat x + unat (amd8 y (255 - x)) \<le> unat a + unat (amd8 b (255 - a))"
    using screen_nat [of "unat x" "unat a" "unat y" "unat b"] assms u8_le [of a] u8_le [of b]
    by (simp add: unat_amd8 unat_inv8 word_le_nat_alt)
  have "unat (x + amd8 y (255 - x)) = unat x + unat (amd8 y (255 - x))"
    using l b by (rule unat_add8_le [OF order_trans order_refl])
  moreover have "unat (a + amd8 b (255 - a)) = unat a + unat (amd8 b (255 - a))"
    using b by (rule unat_add8_le [OF order_refl])
  ultimately show ?thesis using l by (simp add: word_le_nat_alt)
qed

lemma sat_add8_mono: "x \<le> a \<Longrightarrow> y \<le> b \<Longrightarrow> sat_add8 x y \<le> sat_add8 a b"
  by (simp add: word_le_nat_alt unat_sat)

lemma SrcATop_byte:
  fixes x a y b :: u8
  assumes "x \<le> a" "y \<le> b"
  shows "div255_16 (ucast x * ucast b + ucast y * ucast (255 - a))
           \<le> div255_16 (ucast a * ucast b + ucast b * ucast (255 - a))"
proof (rule div255_16_mono)
  have x: "unat x \<le> unat a" and y: "unat y \<le> unat b"
    using assms by (simp_all add: word_le_nat_alt)
  have r: "unat a * unat b + unat b * (255 - unat a) \<le> 255 * unat b"
    using atop_nat [of "unat a" "unat a" "unat b" "unat b"] u8_le [of a] by simp
  have rb: "unat a * unat b + unat b * (255 - unat a) \<le> 65025"
    using r u8_le [of b] by simp
  have l: "unat x * unat b + unat y * (255 - unat a)
      \<le> unat a * unat b + unat b * (255 - unat a)"
    using x y by (intro add_mono mult_le_mono) simp_all
  have ur: "unat (ucast a * ucast b + ucast b * ucast (255 - a) :: u16)
      = unat a * unat b + unat b * (255 - unat a)"
    using rb unat_wide2 [of a b b "255 - a"] by (simp add: unat_inv8)
  have ul: "unat (ucast x * ucast b + ucast y * ucast (255 - a) :: u16)
      = unat x * unat b + unat y * (255 - unat a)"
    using l rb unat_wide2 [of x b y "255 - a"] by (simp add: unat_inv8)
  show "unat (ucast x * ucast b + ucast y * ucast (255 - a) :: u16)
      \<le> unat (ucast a * ucast b + ucast b * ucast (255 - a) :: u16)"
    using l by (simp only: ul ur)
  show "unat (ucast a * ucast b + ucast b * ucast (255 - a) :: u16) \<le> 65025"
    using rb by (simp only: ur)
qed

lemma Xor_byte:
  fixes x a y b :: u8
  assumes "x \<le> a" "y \<le> b"
  shows "div255_16 (ucast x * ucast (255 - b) + ucast y * ucast (255 - a))
           \<le> div255_16 (ucast a * ucast (255 - b) + ucast b * ucast (255 - a))"
proof (rule div255_16_mono)
  have x: "unat x \<le> unat a" and y: "unat y \<le> unat b"
    using assms by (simp_all add: word_le_nat_alt)
  note n = xor_nat [OF x u8_le [of a] y u8_le [of b]]
  have ur: "unat (ucast a * ucast (255 - b) + ucast b * ucast (255 - a) :: u16)
      = unat a * (255 - unat b) + unat b * (255 - unat a)"
    using n(2) unat_wide2 [of a "255 - b" b "255 - a"] by (simp add: unat_inv8)
  have ul: "unat (ucast x * ucast (255 - b) + ucast y * ucast (255 - a) :: u16)
      = unat x * (255 - unat b) + unat y * (255 - unat a)"
    using n unat_wide2 [of x "255 - b" y "255 - a"] by (simp add: unat_inv8)
  show "unat (ucast x * ucast (255 - b) + ucast y * ucast (255 - a) :: u16)
      \<le> unat (ucast a * ucast (255 - b) + ucast b * ucast (255 - a) :: u16)"
    using n(1) by (simp only: ul ur)
  show "unat (ucast a * ucast (255 - b) + ucast b * ucast (255 - a) :: u16) \<le> 65025"
    using n(2) by (simp only: ur)
qed

lemma Multiply_byte:
  fixes x a y b :: u8
  assumes "x \<le> a" "y \<le> b"
  shows "div255_16 (ucast x * ucast (255 - b) + ucast y * ucast (255 - a) + ucast x * ucast y)
           \<le> div255_16 (ucast a * ucast (255 - b) + ucast b * ucast (255 - a) + ucast a * ucast b)"
proof (rule div255_16_mono)
  have x: "unat x \<le> unat a" and y: "unat y \<le> unat b"
    using assms by (simp_all add: word_le_nat_alt)
  note m = mul3_mono [OF x y]
  have bd: "unat a * (255 - unat b) + unat b * (255 - unat a) + unat a * unat b \<le> 65025"
    using u8_le [of a] u8_le [of b] by (rule mul3_nat(2))
  have ur: "unat (ucast a * ucast (255 - b) + ucast b * ucast (255 - a) + ucast a * ucast b :: u16)
      = unat a * (255 - unat b) + unat b * (255 - unat a) + unat a * unat b"
    using bd unat_wide3 [of a "255 - b" b "255 - a" a b] by (simp add: unat_inv8)
  have ul: "unat (ucast x * ucast (255 - b) + ucast y * ucast (255 - a) + ucast x * ucast y :: u16)
      = unat x * (255 - unat b) + unat y * (255 - unat a) + unat x * unat y"
    using m bd unat_wide3 [of x "255 - b" y "255 - a" x y] by (simp add: unat_inv8)
  show "unat (ucast x * ucast (255 - b) + ucast y * ucast (255 - a) + ucast x * ucast y :: u16)
      \<le> unat (ucast a * ucast (255 - b) + ucast b * ucast (255 - a) + ucast a * ucast b :: u16)"
    using m by (simp only: ul ur)
  show "unat (ucast a * ucast (255 - b) + ucast b * ucast (255 - a) + ucast a * ucast b :: u16)
      \<le> 65025"
    using bd by (simp only: ur)
qed

lemma unat_sub16_fits: "unat b \<le> unat a \<Longrightarrow> unat (a - b :: u16) = unat a - unat b"
  by (simp add: unat_sub word_le_nat_alt)

lemma unat_shl1_fits: "2 * unat w < 65536 \<Longrightarrow> unat (push_bit 1 (w::u16)) = 2 * unat w"
  by (simp only: unat_shl1 mod_less)

lemma srcover_byte:
  fixes x a y b :: u8
  assumes "x \<le> a" "y \<le> b"
  shows "x + div255_16 (ucast y * ucast (255 - a)) \<le> a + div255_16 (ucast b * ucast (255 - a))"
proof -
  have x: "unat x \<le> unat a" and y: "unat y \<le> unat b"
    using assms by (simp_all add: word_le_nat_alt)
  have bd: "unat a + round255 (unat b * (255 - unat a)) \<le> 255"
    using u8_le [of a] u8_le [of b] by (rule over_alpha_nat(2))
  have m: "unat x + round255 (unat y * (255 - unat a))
      \<le> unat a + round255 (unat b * (255 - unat a))"
    using x y by (rule over_nat_mono)
  have "unat x + round255 (unat y * (255 - unat a)) \<le> 255" using m bd by simp
  then have "unat (x + div255_16 (ucast y * ucast (255 - a)))
      = unat x + round255 (unat y * (255 - unat a))" by (rule unat_over)
  moreover have "unat (a + div255_16 (ucast b * ucast (255 - a)))
      = unat a + round255 (unat b * (255 - unat a))" using bd by (rule unat_over)
  ultimately show ?thesis using m by (simp add: word_le_nat_alt)
qed

lemma dstover_byte:
  fixes x a y b :: u8
  assumes "x \<le> a" "y \<le> b"
  shows "y + div255_16 (ucast x * ucast (255 - b)) \<le> a + div255_16 (ucast b * ucast (255 - a))"
proof -
  have x: "unat x \<le> unat a" and y: "unat y \<le> unat b"
    using assms by (simp_all add: word_le_nat_alt)
  have bd: "unat a + round255 (unat b * (255 - unat a)) \<le> 255"
    using u8_le [of a] u8_le [of b] by (rule over_alpha_nat(2))
  have s: "unat b + round255 (unat a * (255 - unat b))
      = unat a + round255 (unat b * (255 - unat a))"
    using u8_le [of a] u8_le [of b] by (rule over_nat_sym)
  have "unat y + round255 (unat x * (255 - unat b))
      \<le> unat b + round255 (unat a * (255 - unat b))"
    using y x by (rule over_nat_mono)
  then have m: "unat y + round255 (unat x * (255 - unat b))
      \<le> unat a + round255 (unat b * (255 - unat a))" using s by simp
  have "unat y + round255 (unat x * (255 - unat b)) \<le> 255" using m bd by simp
  then have "unat (y + div255_16 (ucast x * ucast (255 - b)))
      = unat y + round255 (unat x * (255 - unat b))" by (rule unat_over)
  moreover have "unat (a + div255_16 (ucast b * ucast (255 - a)))
      = unat a + round255 (unat b * (255 - unat a))" using bd by (rule unat_over)
  ultimately show ?thesis using m by (simp add: word_le_nat_alt)
qed

lemma Exclusion_byte:
  fixes x a y b :: u8
  assumes "x \<le> a" "y \<le> b"
  shows "(x - amd8 x y) + (y - amd8 x y) \<le> (a - amd8 a b) + b"
proof -
  let ?p = "(unat x * unat y + unat x) div 256"
  let ?q = "(unat a * unat b + unat a) div 256"
  have x: "unat x \<le> unat a" and y: "unat y \<le> unat b"
    using assms by (simp_all add: word_le_nat_alt)
  have px: "?p \<le> unat x" using u8_le [of y] by (rule amd_nat_le_left)
  have py: "?p \<le> unat y" using u8_le [of x] by (rule amd_nat_le_right)
  have qa: "?q \<le> unat a" using u8_le [of b] by (rule amd_nat_le_left)
  have al: "unat a + unat b \<le> 255 + ?q"
    using u8_le [of a] u8_le [of b] by (rule excl_nat_alpha)
  have st: "?q \<le> ?p + (unat a - unat x) + (unat b - unat y)"
    using x u8_le [of a] y u8_le [of b] by (rule excl_nat_step)
  have 1: "unat (x - amd8 x y) = unat x - ?p" using px by (simp add: unat_sub8_fits unat_amd8)
  have 2: "unat (y - amd8 x y) = unat y - ?p" using py by (simp add: unat_sub8_fits unat_amd8)
  have 3: "unat (a - amd8 a b) = unat a - ?q" using qa by (simp add: unat_sub8_fits unat_amd8)
  have r: "(unat a - ?q) + unat b \<le> 255" using al qa by linarith
  have l: "(unat x - ?p) + (unat y - ?p) \<le> (unat a - ?q) + unat b"
    using px py qa st x y by linarith
  have "unat (x - amd8 x y) + unat (y - amd8 x y) < 256"
    unfolding 1 2 using l r by linarith
  then have L: "unat ((x - amd8 x y) + (y - amd8 x y)) = (unat x - ?p) + (unat y - ?p)"
    unfolding 1 [symmetric] 2 [symmetric] by (rule unat_add8_fits)
  have "unat (a - amd8 a b) + unat b < 256"
    unfolding 3 using r by linarith
  then have R: "unat ((a - amd8 a b) + b) = (unat a - ?q) + unat b"
    unfolding 3 [symmetric] by (rule unat_add8_fits)
  show ?thesis unfolding word_le_nat_alt L R by (rule l)
qed

lemma Difference_byte:
  fixes x a y b :: u8
  assumes "x \<le> a" "y \<le> b"
  shows "(x - div255_16 (min (ucast x * ucast b) (ucast y * ucast a)))
           + (y - div255_16 (min (ucast x * ucast b) (ucast y * ucast a)))
         \<le> (a - div255_16 (ucast a * ucast b)) + b"
proof -
  let ?M = "div255_16 (min (ucast x * ucast b) (ucast y * ucast a))"
  let ?m = "round255 (min (unat x * unat b) (unat y * unat a))"
  let ?q = "round255 (unat a * unat b)"
  have x: "unat x \<le> unat a" and y: "unat y \<le> unat b"
    using assms by (simp_all add: word_le_nat_alt)
  note d = diff_nat [OF x u8_le [of a] y u8_le [of b]]
  have "unat (min (ucast x * ucast b) (ucast y * ucast a) :: u16)
      = min (unat x * unat b) (unat y * unat a)"
    by (simp only: unat_min unat_mul16)
  moreover have "min (unat x * unat b) (unat y * unat a) \<le> 65025"
    using prod_le [of x b] by simp
  ultimately have M: "unat ?M = ?m"
    using unat_div255 [of "min (ucast x * ucast b) (ucast y * ucast a)"] by simp
  have Q: "unat (div255_16 (ucast a * ucast b)) = ?q" by (rule unat_div255_mul)
  have qa: "?q \<le> unat a" using u8_le [of b] by (intro round255_le) (simp add: mult.commute)
  have al: "unat a + unat b \<le> 255 + ?q"
    using u8_le [of a] u8_le [of b] by (rule union_le)
  have 1: "unat (x - ?M) = unat x - ?m" using d(1) M by (simp add: unat_sub8_fits)
  have 2: "unat (y - ?M) = unat y - ?m" using d(2) M by (simp add: unat_sub8_fits)
  have 3: "unat (a - div255_16 (ucast a * ucast b)) = unat a - ?q"
    using qa Q by (simp add: unat_sub8_fits)
  have r: "(unat a - ?q) + unat b \<le> 255" using al qa by linarith
  have "unat (x - ?M) + unat (y - ?M) < 256"
    unfolding 1 2 using d(3) r by linarith
  then have L: "unat ((x - ?M) + (y - ?M)) = (unat x - ?m) + (unat y - ?m)"
    unfolding 1 [symmetric] 2 [symmetric] by (rule unat_add8_fits)
  have "unat (a - div255_16 (ucast a * ucast b)) + unat b < 256"
    unfolding 3 using r by linarith
  then have R: "unat ((a - div255_16 (ucast a * ucast b)) + b) = (unat a - ?q) + unat b"
    unfolding 3 [symmetric] by (rule unat_add8_fits)
  show ?thesis unfolding word_le_nat_alt L R by (rule d(3))
qed

lemma isLite_nat:
  fixes x a :: u8
  assumes "x \<le> a"
  shows "a - x < x \<longleftrightarrow> unat a - unat x < unat x"
  using assms by (simp add: word_less_nat_alt unat_sub8_fits word_le_nat_alt)

lemma HL_both_unat:
  fixes x a y b :: u8
  assumes "x \<le> a" "y \<le> b"
  shows "unat (ucast x * ucast (255 - b) + ucast y * ucast (255 - a) :: u16)
           = unat x * (255 - unat b) + unat y * (255 - unat a)"
proof -
  have x: "unat x \<le> unat a" and y: "unat y \<le> unat b"
    using assms by (simp_all add: word_le_nat_alt)
  note n = xor_nat [OF x u8_le [of a] y u8_le [of b]]
  have "unat x * unat (255 - b) + unat y * unat (255 - a) \<le> 65025"
    unfolding unat_inv8 using n by linarith
  then show ?thesis unfolding unat_inv8 [symmetric] by (rule unat_wide2)
qed

lemma HL_dark_unat:
  fixes x a y b :: u8
  assumes "x \<le> a" "y \<le> b" "\<not> a - x < x"
  shows "unat (push_bit 1 (ucast x * ucast y :: u16)) = 2 * (unat x * unat y)"
proof -
  have x: "unat x \<le> unat a" and y: "unat y \<le> unat b"
    using assms by (simp_all add: word_le_nat_alt)
  have c: "\<not> unat a - unat x < unat x" using assms(1,3) by (simp add: isLite_nat)
  have "unat x * (255 - unat b) + unat y * (255 - unat a) + 2 * (unat x * unat y)
      \<le> 255 * unat a + unat b * (255 - unat a)"
    using x u8_le [of a] y u8_le [of b] c by (rule hl_dark_nat)
  moreover have "255 * unat a + unat b * (255 - unat a) \<le> 65025"
    using u8_le [of a] u8_le [of b] by (rule hl_alpha_bound)
  ultimately have "2 * (unat x * unat y) < 65536" by linarith
  then have "2 * unat (ucast x * ucast y :: u16) < 65536" by (simp only: unat_mul16)
  then have "unat (push_bit 1 (ucast x * ucast y :: u16)) = 2 * unat (ucast x * ucast y :: u16)"
    by (rule unat_shl1_fits)
  then show ?thesis by (simp only: unat_mul16)
qed

lemma HL_lite_unat:
  fixes x a y b :: u8
  assumes "x \<le> a" "y \<le> b" "a - x < x"
  shows "unat (push_bit 1 (ucast (b - y) * ucast (a - x) :: u16))
           = 2 * ((unat b - unat y) * (unat a - unat x))"
    and "unat (ucast a * ucast b - push_bit 1 (ucast (b - y) * ucast (a - x)) :: u16)
           = unat a * unat b - 2 * ((unat b - unat y) * (unat a - unat x))"
proof -
  have x: "unat x \<le> unat a" and y: "unat y \<le> unat b"
    using assms by (simp_all add: word_le_nat_alt)
  have c: "unat a - unat x < unat x" using assms(1,3) by (simp add: isLite_nat)
  have l: "2 * ((unat b - unat y) * (unat a - unat x)) \<le> unat a * unat b"
    using x u8_le [of a] y u8_le [of b] c by (rule hl_lite_nat(1))
  have p: "unat (ucast (b - y) * ucast (a - x) :: u16) = (unat b - unat y) * (unat a - unat x)"
    using x y by (simp only: unat_mul16 unat_sub8_fits)
  have "2 * unat (ucast (b - y) * ucast (a - x) :: u16) < 65536"
    unfolding p using l prod_le [of a b] by linarith
  then have "unat (push_bit 1 (ucast (b - y) * ucast (a - x) :: u16))
      = 2 * unat (ucast (b - y) * ucast (a - x) :: u16)" by (rule unat_shl1_fits)
  then show s: "unat (push_bit 1 (ucast (b - y) * ucast (a - x) :: u16))
      = 2 * ((unat b - unat y) * (unat a - unat x))" by (simp only: p)
  have "unat (push_bit 1 (ucast (b - y) * ucast (a - x) :: u16)) \<le> unat (ucast a * ucast b :: u16)"
    unfolding s unat_mul16 by (rule l)
  then have "unat (ucast a * ucast b - push_bit 1 (ucast (b - y) * ucast (a - x)) :: u16)
      = unat (ucast a * ucast b :: u16) - unat (push_bit 1 (ucast (b - y) * ucast (a - x)) :: u16)"
    by (rule unat_sub16_fits)
  then show "unat (ucast a * ucast b - push_bit 1 (ucast (b - y) * ucast (a - x)) :: u16)
      = unat a * unat b - 2 * ((unat b - unat y) * (unat a - unat x))"
    by (simp only: s unat_mul16)
qed

text \<open>The sum that HardLight hands to div255, and its bound.\<close>

lemma HL_sum_unat:
  fixes x a y b :: u8
  assumes "x \<le> a" "y \<le> b"
  shows "unat (ucast x * ucast (255 - b) + ucast y * ucast (255 - a)
               + (if a - x < x
                  then ucast a * ucast b - push_bit 1 (ucast (b - y) * ucast (a - x))
                  else push_bit 1 (ucast x * ucast y)) :: u16)
           = unat x * (255 - unat b) + unat y * (255 - unat a)
             + (if unat a - unat x < unat x
                then unat a * unat b - 2 * ((unat b - unat y) * (unat a - unat x))
                else 2 * (unat x * unat y))"
    and "unat x * (255 - unat b) + unat y * (255 - unat a)
             + (if unat a - unat x < unat x
                then unat a * unat b - 2 * ((unat b - unat y) * (unat a - unat x))
                else 2 * (unat x * unat y))
           \<le> 255 * unat a + unat b * (255 - unat a)"
proof -
  have x: "unat x \<le> unat a" and y: "unat y \<le> unat b"
    using assms by (simp_all add: word_le_nat_alt)
  have al: "255 * unat a + unat b * (255 - unat a) \<le> 65025"
    using u8_le [of a] u8_le [of b] by (rule hl_alpha_bound)
  show bd: "unat x * (255 - unat b) + unat y * (255 - unat a)
             + (if unat a - unat x < unat x
                then unat a * unat b - 2 * ((unat b - unat y) * (unat a - unat x))
                else 2 * (unat x * unat y))
           \<le> 255 * unat a + unat b * (255 - unat a)"
    using hl_lite_nat(2) [OF x u8_le [of a] y u8_le [of b]]
      hl_dark_nat [OF x u8_le [of a] y u8_le [of b]] by simp
  show "unat (ucast x * ucast (255 - b) + ucast y * ucast (255 - a)
               + (if a - x < x
                  then ucast a * ucast b - push_bit 1 (ucast (b - y) * ucast (a - x))
                  else push_bit 1 (ucast x * ucast y)) :: u16)
           = unat x * (255 - unat b) + unat y * (255 - unat a)
             + (if unat a - unat x < unat x
                then unat a * unat b - 2 * ((unat b - unat y) * (unat a - unat x))
                else 2 * (unat x * unat y))"
  proof (cases "a - x < x")
    case True
    then have c: "unat a - unat x < unat x" using assms(1) by (simp add: isLite_nat)
    have "unat (ucast x * ucast (255 - b) + ucast y * ucast (255 - a) :: u16)
        + unat (ucast a * ucast b - push_bit 1 (ucast (b - y) * ucast (a - x)) :: u16) < 65536"
      unfolding HL_both_unat [OF assms] HL_lite_unat(2) [OF assms True]
      using bd al c by simp
    then have "unat (ucast x * ucast (255 - b) + ucast y * ucast (255 - a)
        + (ucast a * ucast b - push_bit 1 (ucast (b - y) * ucast (a - x))) :: u16)
        = unat (ucast x * ucast (255 - b) + ucast y * ucast (255 - a) :: u16)
        + unat (ucast a * ucast b - push_bit 1 (ucast (b - y) * ucast (a - x)) :: u16)"
      by (rule unat_add16_fits)
    then show ?thesis
      unfolding HL_both_unat [OF assms] HL_lite_unat(2) [OF assms True]
      using True c by (simp only: if_True)
  next
    case False
    then have c: "\<not> unat a - unat x < unat x" using assms(1) by (simp add: isLite_nat)
    have "unat (ucast x * ucast (255 - b) + ucast y * ucast (255 - a) :: u16)
        + unat (push_bit 1 (ucast x * ucast y) :: u16) < 65536"
      unfolding HL_both_unat [OF assms] HL_dark_unat [OF assms False]
      using bd al c by simp
    then have "unat (ucast x * ucast (255 - b) + ucast y * ucast (255 - a)
        + push_bit 1 (ucast x * ucast y) :: u16)
        = unat (ucast x * ucast (255 - b) + ucast y * ucast (255 - a) :: u16)
        + unat (push_bit 1 (ucast x * ucast y) :: u16)"
      by (rule unat_add16_fits)
    then show ?thesis
      unfolding HL_both_unat [OF assms] HL_dark_unat [OF assms False]
      using False c by (simp only: if_False)
  qed
qed

lemma HardLight_byte:
  fixes x a y b :: u8
  assumes "x \<le> a" "y \<le> b"
  shows "div255_16 (ucast x * ucast (255 - b) + ucast y * ucast (255 - a)
               + (if a - x < x
                  then ucast a * ucast b - push_bit 1 (ucast (b - y) * ucast (a - x))
                  else push_bit 1 (ucast x * ucast y)))
           \<le> a + div255_16 (ucast b * ucast (255 - a))"
proof -
  let ?W = "ucast x * ucast (255 - b) + ucast y * ucast (255 - a)
               + (if a - x < x
                  then ucast a * ucast b - push_bit 1 (ucast (b - y) * ucast (a - x))
                  else push_bit 1 (ucast x * ucast y)) :: u16"
  have al: "255 * unat a + unat b * (255 - unat a) \<le> 65025"
    using u8_le [of a] u8_le [of b] by (rule hl_alpha_bound)
  have w: "unat ?W \<le> 255 * unat a + unat b * (255 - unat a)"
    unfolding HL_sum_unat(1) [OF assms] by (rule HL_sum_unat(2) [OF assms])
  then have "unat ?W \<le> 65025" using al by linarith
  then have "unat (div255_16 ?W) = round255 (unat ?W)" by (rule unat_div255)
  also have "\<dots> \<le> round255 (255 * unat a + unat b * (255 - unat a))"
    using w by (rule round255_mono)
  also have "\<dots> = unat a + round255 (unat b * (255 - unat a))" by (rule round255_add)
  finally have l: "unat (div255_16 ?W) \<le> unat a + round255 (unat b * (255 - unat a))" .
  have bd: "unat a + round255 (unat b * (255 - unat a)) \<le> 255"
    using u8_le [of a] u8_le [of b] by (rule over_alpha_nat(2))
  have R: "unat (a + div255_16 (ucast b * ucast (255 - a)))
      = unat a + round255 (unat b * (255 - unat a))" using bd by (rule unat_over)
  show ?thesis unfolding word_le_nat_alt R by (rule l)
qed

section \<open>Premultiplication is preserved\<close>

lemma Difference_alpha_byte:
  "at (Xfer Difference s d) l A
     = (at s l A - div255_16 (ucast (at s l A) * ucast (at d l A))) + at d l A"
  by (simp add: at_ops Let_def mult.commute)

lemma Difference_colour_byte:
  "c \<noteq> A \<Longrightarrow> at (Xfer Difference s d) l c
     = (at s l c - div255_16 (min (ucast (at s l c) * ucast (at d l A))
                                  (ucast (at d l c) * ucast (at s l A))))
       + (at d l c - div255_16 (min (ucast (at s l c) * ucast (at d l A))
                                    (ucast (at d l c) * ucast (at s l A))))"
  by (simp only: Xfer.simps Let_def at_ops if_False)

lemma Exclusion_alpha_byte:
  "at (Xfer Exclusion s d) l A = (at s l A - amd8 (at s l A) (at d l A)) + at d l A"
  by (simp only: Xfer.simps Let_def at_ops if_True diff_zero refl)

lemma Exclusion_colour_byte:
  "c \<noteq> A \<Longrightarrow> at (Xfer Exclusion s d) l c
     = (at s l c - amd8 (at s l c) (at d l c)) + (at d l c - amd8 (at s l c) (at d l c))"
  by (simp only: Xfer.simps Let_def at_ops if_False)

lemma HardLight_alpha_byte:
  "at (Xfer HardLight s d) l A
     = at s l A + div255_16 (ucast (at d l A) * ucast (255 - at s l A))"
  by (simp add: at_ops Let_def)

lemma HardLight_colour_byte:
  "c \<noteq> A \<Longrightarrow> at (Xfer HardLight s d) l c
     = div255_16 (ucast (at s l c) * ucast (255 - at d l A)
                  + ucast (at d l c) * ucast (255 - at s l A)
                  + (if at s l A - at s l c < at s l c
                     then ucast (at s l A) * ucast (at d l A)
                          - push_bit 1 (ucast (at d l A - at d l c) * ucast (at s l A - at s l c))
                     else push_bit 1 (ucast (at s l c) * ucast (at d l c))))"
  by (simp only: Xfer.simps Let_def at_ops HardLight_isLite_def HardLight_lite_def
      HardLight_dark_def HardLight_both_def if_False add_0_left)

lemma Darken_alpha_byte:
  "at (Xfer Darken s d) l A
     = at s l A + div255_16 (ucast (at d l A) * ucast (255 - at s l A))"
  by (simp add: at_ops Let_def)

lemma Darken_colour_byte:
  "c \<noteq> A \<Longrightarrow> at (Xfer Darken s d) l c
     = (if div255_16 (ucast (at s l c) * ucast (at d l A))
           < div255_16 (ucast (at d l c) * ucast (at s l A))
        then at s l c + div255_16 (ucast (at d l c) * ucast (255 - at s l A))
        else at d l c + div255_16 (ucast (at s l c) * ucast (255 - at d l A)))"
  by (simp only: Xfer.simps Let_def at_ops if_False add_0_left)

lemma Lighten_alpha_byte:
  "at (Xfer Lighten s d) l A
     = at s l A + div255_16 (ucast (at d l A) * ucast (255 - at s l A))"
  by (simp add: at_ops Let_def)

lemma Lighten_colour_byte:
  "c \<noteq> A \<Longrightarrow> at (Xfer Lighten s d) l c
     = (if div255_16 (ucast (at d l c) * ucast (at s l A))
           < div255_16 (ucast (at s l c) * ucast (at d l A))
        then at s l c + div255_16 (ucast (at d l c) * ucast (255 - at s l A))
        else at d l c + div255_16 (ucast (at s l c) * ucast (255 - at d l A)))"
  by (simp only: Xfer.simps Let_def at_ops if_False add_0_left)

lemma premul_lane:
  assumes s: "\<forall>c. at s l c \<le> at s l A" and d: "\<forall>c. at d l c \<le> at d l A"
  shows "at (Xfer M s d) l c \<le> at (Xfer M s d) l A"
proof (cases "c = A")
  case True
  then show ?thesis by simp
next
  case c: False
  have x: "at s l c \<le> at s l A" and y: "at d l c \<le> at d l A"
    using s d by simp_all
  have hl: "at (Xfer HardLight s' d') l c \<le> at (Xfer HardLight s' d') l A"
    if "at s' l c \<le> at s' l A" "at d' l c \<le> at d' l A" for s' d'
    unfolding HardLight_alpha_byte HardLight_colour_byte [OF c]
    using that by (rule HardLight_byte)
  show ?thesis
  proof (cases M)
    case Clear
    then show ?thesis by (simp add: at_ops ch_grey)
  next
    case Src
    then show ?thesis using x by simp
  next
    case Dst
    then show ?thesis using y by simp
  next
    case SrcIn
    then show ?thesis using amd8_mono [OF x order_refl] by (simp add: at_ops)
  next
    case SrcOut
    then show ?thesis using amd8_mono [OF x order_refl] by (simp add: at_ops)
  next
    case SrcOver
    then show ?thesis using SrcOver_byte [OF x y] by (simp add: at_ops)
  next
    case DstIn
    then show ?thesis using amd8_mono [OF y order_refl] by (simp add: at_ops)
  next
    case DstOut
    then show ?thesis using amd8_mono [OF y order_refl] by (simp add: at_ops)
  next
    case DstOver
    then show ?thesis using SrcOver_byte [OF y x] by (simp add: at_ops)
  next
    case SrcATop
    then show ?thesis using SrcATop_byte [OF x y] by (simp only: Xfer.simps at_ops)
  next
    case DstATop
    then show ?thesis using SrcATop_byte [OF y x] by (simp only: Xfer.simps at_ops)
  next
    case Xor
    then show ?thesis using Xor_byte [OF x y] by (simp only: Xfer.simps at_ops)
  next
    case Plus
    then show ?thesis using sat_add8_mono [OF x y] by (simp add: at_ops)
  next
    case Modulate
    then show ?thesis using amd8_mono [OF x y] by (simp add: at_ops)
  next
    case Screen
    then show ?thesis using Screen_byte [OF x y] by (simp add: at_ops)
  next
    case Multiply
    then show ?thesis using Multiply_byte [OF x y] by (simp only: Xfer.simps at_ops)
  next
    case Difference
    show ?thesis
      unfolding Difference Difference_alpha_byte Difference_colour_byte [OF c]
      using x y by (rule Difference_byte)
  next
    case Exclusion
    show ?thesis
      unfolding Exclusion Exclusion_alpha_byte Exclusion_colour_byte [OF c]
      using x y by (rule Exclusion_byte)
  next
    case HardLight
    show ?thesis unfolding HardLight using x y by (rule hl)
  next
    case Overlay
    have "at (Xfer HardLight d s) l c \<le> at (Xfer HardLight d s) l A"
      using y x by (rule hl)
    then show ?thesis by (simp only: Overlay Xfer.simps)
  next
    case Darken
    show ?thesis
      unfolding Darken Darken_alpha_byte Darken_colour_byte [OF c]
      using srcover_byte [OF x y] dstover_byte [OF x y] by simp
  next
    case Lighten
    show ?thesis
      unfolding Lighten Lighten_alpha_byte Lighten_colour_byte [OF c]
      using srcover_byte [OF x y] dstover_byte [OF x y] by simp
  qed
qed

lemma Xfer_premul4: "premul4 s \<Longrightarrow> premul4 d \<Longrightarrow> premul4 (Xfer M s d)"
  by (simp add: premul4_iff premul_iff premul_lane)

text \<open>
  C1. Every kernel keeps pixels premultiplied: in each pixel where source and
  destination are premultiplied (no colour channel above the alpha channel), every
  colour channel of \<open>M (s, d)\<close> is at most its alpha channel, for each of the 22 modes.
\<close>

theorem Xfer_premul:
  assumes "premul (lane l s)" and "premul (lane l d)"
  shows "premul (lane l (Xfer M s d))"
  using assms by (simp add: premul_iff premul_lane)

theorem Xfer_premul_witness:
  "premul (lane L0 (DupPMColor (Px 200 90 10 220))) \<and>
   premul (lane L0 (DupPMColor (Px 3 100 77 128))) \<and>
   premul (lane L0 (Xfer HardLight (DupPMColor (Px 200 90 10 220)) (DupPMColor (Px 3 100 77 128))))"
  using Xfer_premul [of L0 "DupPMColor (Px 200 90 10 220)" "DupPMColor (Px 3 100 77 128)" HardLight]
  by (simp add: premul_def DupPMColor_def)

section \<open>The 16-bit intermediate values\<close>

lemma fits_addI: "unat x + unat y \<le> 65025 \<Longrightarrow> fits_add x y"
  unfolding fits_add_def by (rule unat_add16_fits) simp

lemma fits_subI: "unat y \<le> unat x \<Longrightarrow> fits_sub x y"
  unfolding fits_sub_def by (simp add: unat_sub16_fits)

lemma fits_shl1I: "2 * unat x \<le> 65025 \<Longrightarrow> fits_shl1 x"
  unfolding fits_shl1_def by (rule unat_shl1_fits) simp

lemma hl_dark_small:
  assumes "x \<le> a" "a \<le> 255" "y \<le> b" "b \<le> (255::nat)" "\<not> a - x < x"
  shows "2 * (x * y) \<le> 65025"
  using hl_dark_nat [OF assms] hl_alpha_bound [OF assms(2,4)] by linarith

text \<open>
  The widening product of two bytes is at most \<open>255 * 255\<close> and never wraps. Difference,
  Darken and Lighten, and \<^verbatim>\<open>srcover\<close> in HardLight, hand such products (or the minimum
  of two of them) to \<^verbatim>\<open>div255\<close> directly.
\<close>

lemma mul_exact: "unat (at (mul v w) l c) = unat (at v l c) * unat (at w l c)"
  by (simp only: at_mul unat_mul16)

lemma mul_le: "unat (at (mul v w) l c) \<le> 255 * 255"
  unfolding mul_exact using prod_le [of "at v l c" "at w l c"] by simp

text \<open>
  C2, as the code has it. In every pixel where source and destination are
  premultiplied, the 16-bit values that reach a \<^verbatim>\<open>div255\<close> are computed without
  wrapping: the sums of SrcATop, Xor and Multiply (and, with the arguments exchanged,
  DstATop), the sum \<open>both\<close> of HardLight, the sum of \<open>both\<close> and the value that
  \<^verbatim>\<open>thenElse\<close> selects, and the interpolation of the coverage wrapper for any result
  \<open>bw\<close> and coverage \<open>aa\<close>. Of HardLight's two candidates, \<open>lite\<close> is computed without
  wrapping or underflow in the lanes where \<open>isLite\<close> holds and \<open>dark\<close> in the lanes
  where it does not, which are the lanes where each is selected.
\<close>

theorem Wide_fits:
  assumes "premul (lane l s)" and "premul (lane l d)"
  shows "fits_add (at (mul s (alphas d)) l c) (at (mul d (inv (alphas s))) l c) \<and>
         fits_add (at (mul s (inv (alphas d))) l c) (at (mul d (inv (alphas s))) l c) \<and>
         fits_add (at (addW (mul s (inv (alphas d))) (mul d (inv (alphas s)))) l c)
           (at (mul s d) l c) \<and>
         (at (HardLight_isLite s d) l c \<longrightarrow>
            fits_shl1 (at (mul (sub (alphas d) d) (sub (alphas s) s)) l c) \<and>
            fits_sub (at (mul (alphas s) (alphas d)) l c)
              (at (shl1 (mul (sub (alphas d) d) (sub (alphas s) s))) l c)) \<and>
         (\<not> at (HardLight_isLite s d) l c \<longrightarrow> fits_shl1 (at (mul s d) l c)) \<and>
         fits_add (at (HardLight_both s d) l c)
           (at (thenElse (HardLight_isLite s d) (HardLight_lite s d) (HardLight_dark s d)) l c) \<and>
         fits_add (at (mul bw aa) l c) (at (mul d (inv aa)) l c)"
proof -
  let ?x = "at s l c" and ?a = "at s l A" and ?y = "at d l c" and ?b = "at d l A"
  have x: "?x \<le> ?a" and y: "?y \<le> ?b"
    using assms by (simp_all add: premul_iff)
  have nx: "unat ?x \<le> unat ?a" and ny: "unat ?y \<le> unat ?b"
    using x y by (simp_all add: word_le_nat_alt)
  note xn = xor_nat [OF nx u8_le [of ?a] ny u8_le [of ?b]]
  have 1: "fits_add (at (mul s (alphas d)) l c) (at (mul d (inv (alphas s))) l c)"
  proof (rule fits_addI)
    have "unat ?x * unat ?b + unat ?y * (255 - unat ?a) \<le> 255 * unat ?b"
      using nx u8_le [of ?a] ny by (rule atop_nat)
    then show "unat (at (mul s (alphas d)) l c) + unat (at (mul d (inv (alphas s))) l c) \<le> 65025"
      unfolding at_ops unat_mul16 unat_inv8 using u8_le [of ?b] by linarith
  qed
  have 2: "fits_add (at (mul s (inv (alphas d))) l c) (at (mul d (inv (alphas s))) l c)"
  proof (rule fits_addI)
    show "unat (at (mul s (inv (alphas d))) l c) + unat (at (mul d (inv (alphas s))) l c) \<le> 65025"
      unfolding at_ops unat_mul16 unat_inv8 using xn by linarith
  qed
  have 3: "fits_add (at (addW (mul s (inv (alphas d))) (mul d (inv (alphas s)))) l c)
           (at (mul s d) l c)"
  proof (rule fits_addI)
    have "unat ?x * (255 - unat ?b) + unat ?y * (255 - unat ?a) + unat ?x * unat ?y
        \<le> unat ?a * (255 - unat ?b) + unat ?b * (255 - unat ?a) + unat ?a * unat ?b"
      using nx ny by (rule mul3_mono)
    moreover have "unat ?a * (255 - unat ?b) + unat ?b * (255 - unat ?a) + unat ?a * unat ?b
        \<le> 65025"
      using u8_le [of ?a] u8_le [of ?b] by (rule mul3_nat(2))
    ultimately show "unat (at (addW (mul s (inv (alphas d))) (mul d (inv (alphas s)))) l c)
        + unat (at (mul s d) l c) \<le> 65025"
      unfolding at_ops HL_both_unat [OF x y] unat_mul16 by linarith
  qed
  have 4: "fits_shl1 (at (mul (sub (alphas d) d) (sub (alphas s) s)) l c) \<and>
       fits_sub (at (mul (alphas s) (alphas d)) l c)
         (at (shl1 (mul (sub (alphas d) d) (sub (alphas s) s))) l c)"
    if "at (HardLight_isLite s d) l c"
  proof
    have lt: "?a - ?x < ?x" using that by (simp add: HardLight_isLite_def at_ops)
    then have c: "unat ?a - unat ?x < unat ?x" using x by (simp add: isLite_nat)
    have l: "2 * ((unat ?b - unat ?y) * (unat ?a - unat ?x)) \<le> unat ?a * unat ?b"
      using nx u8_le [of ?a] ny u8_le [of ?b] c by (rule hl_lite_nat(1))
    have p: "unat (ucast (?b - ?y) * ucast (?a - ?x) :: u16)
        = (unat ?b - unat ?y) * (unat ?a - unat ?x)"
      using nx ny by (simp only: unat_mul16 unat_sub8_fits)
    show "fits_shl1 (at (mul (sub (alphas d) d) (sub (alphas s) s)) l c)"
      unfolding at_ops
    proof (rule fits_shl1I)
      show "2 * unat (ucast (?b - ?y) * ucast (?a - ?x) :: u16) \<le> 65025"
        unfolding p using l prod_le [of ?a ?b] by linarith
    qed
    show "fits_sub (at (mul (alphas s) (alphas d)) l c)
         (at (shl1 (mul (sub (alphas d) d) (sub (alphas s) s))) l c)"
      unfolding at_ops
    proof (rule fits_subI)
      show "unat (push_bit 1 (ucast (?b - ?y) * ucast (?a - ?x) :: u16))
          \<le> unat (ucast ?a * ucast ?b :: u16)"
        unfolding HL_lite_unat(1) [OF x y lt] unat_mul16 by (rule l)
    qed
  qed
  have 5: "fits_shl1 (at (mul s d) l c)" if "\<not> at (HardLight_isLite s d) l c"
    unfolding at_ops
  proof (rule fits_shl1I)
    have "\<not> ?a - ?x < ?x" using that by (simp add: HardLight_isLite_def at_ops)
    then have c: "\<not> unat ?a - unat ?x < unat ?x" using x by (simp add: isLite_nat)
    show "2 * unat (ucast ?x * ucast ?y :: u16) \<le> 65025"
      unfolding unat_mul16 using nx u8_le [of ?a] ny u8_le [of ?b] c by (rule hl_dark_small)
  qed
  have 6: "fits_add (at (HardLight_both s d) l c)
           (at (thenElse (HardLight_isLite s d) (HardLight_lite s d) (HardLight_dark s d)) l c)"
  proof (rule fits_addI)
    have al: "255 * unat ?a + unat ?b * (255 - unat ?a) \<le> 65025"
      using u8_le [of ?a] u8_le [of ?b] by (rule hl_alpha_bound)
    note bd = HL_sum_unat(2) [OF x y]
    show "unat (at (HardLight_both s d) l c)
        + unat (at (thenElse (HardLight_isLite s d) (HardLight_lite s d) (HardLight_dark s d)) l c)
        \<le> 65025"
    proof (cases "?a - ?x < ?x")
      case True
      then have c: "unat ?a - unat ?x < unat ?x" using x by (simp add: isLite_nat)
      have "unat (ucast ?x * ucast (255 - ?b) + ucast ?y * ucast (255 - ?a) :: u16)
          + unat (ucast ?a * ucast ?b - push_bit 1 (ucast (?b - ?y) * ucast (?a - ?x)) :: u16)
          \<le> 65025"
        unfolding HL_both_unat [OF x y] HL_lite_unat(2) [OF x y True]
        using bd al c by simp
      then show ?thesis
        using True
        by (simp only: HardLight_both_def HardLight_isLite_def HardLight_lite_def
            HardLight_dark_def at_ops if_True)
    next
      case False
      then have c: "\<not> unat ?a - unat ?x < unat ?x" using x by (simp add: isLite_nat)
      have "unat (ucast ?x * ucast (255 - ?b) + ucast ?y * ucast (255 - ?a) :: u16)
          + unat (push_bit 1 (ucast ?x * ucast ?y) :: u16) \<le> 65025"
        unfolding HL_both_unat [OF x y] HL_dark_unat [OF x y False]
        using bd al c by simp
      then show ?thesis
        using False
        by (simp only: HardLight_both_def HardLight_isLite_def HardLight_lite_def
            HardLight_dark_def at_ops if_False)
    qed
  qed
  have 7: "fits_add (at (mul bw aa) l c) (at (mul d (inv aa)) l c)"
  proof (rule fits_addI)
    have 1: "unat (at bw l c) * unat (at aa l c) \<le> 255 * unat (at aa l c)"
      using u8_le [of "at bw l c"] by simp
    have 2: "unat ?y * (255 - unat (at aa l c)) \<le> 255 * (255 - unat (at aa l c))"
      using u8_le [of ?y] by simp
    have "255 * unat (at aa l c) + 255 * (255 - unat (at aa l c)) = 65025"
      using u8_le [of "at aa l c"] by simp
    then show "unat (at (mul bw aa) l c) + unat (at (mul d (inv aa)) l c) \<le> 65025"
      unfolding at_ops unat_mul16 unat_inv8 using 1 2 by linarith
  qed
  show ?thesis using 1 2 3 4 5 6 7 by blast
qed

theorem Wide_fits_witness:
  "premul (lane L0 (DupPMColor (Px 200 10 0 220))) \<and>
   premul (lane L0 (DupPMColor (Px 50 60 70 80))) \<and>
   at (HardLight_isLite (DupPMColor (Px 200 10 0 220)) (DupPMColor (Px 50 60 70 80))) L0 B \<and>
   fits_shl1 (at (mul (sub (alphas (DupPMColor (Px 50 60 70 80))) (DupPMColor (Px 50 60 70 80)))
                      (sub (alphas (DupPMColor (Px 200 10 0 220))) (DupPMColor (Px 200 10 0 220))))
                 L0 B) \<and>
   \<not> at (HardLight_isLite (DupPMColor (Px 200 10 0 220)) (DupPMColor (Px 50 60 70 80))) L0 G \<and>
   fits_shl1 (at (mul (DupPMColor (Px 200 10 0 220)) (DupPMColor (Px 50 60 70 80))) L0 G)"
proof -
  let ?s = "DupPMColor (Px 200 10 0 220)" and ?d = "DupPMColor (Px 50 60 70 80)"
  have p: "premul (lane L0 ?s)" and q: "premul (lane L0 ?d)"
    by (simp_all add: premul_def DupPMColor_def)
  have i: "at (HardLight_isLite ?s ?d) L0 B" and n: "\<not> at (HardLight_isLite ?s ?d) L0 G"
    by (simp_all add: HardLight_isLite_def at_ops)
  have "fits_shl1 (at (mul (sub (alphas ?d) ?d) (sub (alphas ?s) ?s)) L0 B)"
    using Wide_fits [OF p q, of B] i by blast
  moreover have "fits_shl1 (at (mul ?s ?d) L0 G)"
    using Wide_fits [OF p q, of G] n by blast
  ultimately show ?thesis using p q i n by blast
qed

text \<open>
  C2 as it is written fails in the lanes that \<^verbatim>\<open>thenElse\<close> discards. For the pixel
  \<open>(0, 0, 0, 255)\<close> as source and destination, \<open>isLite\<close> is false in the colour lanes
  and \<open>(da - d) * (sa - s) << 1\<close> is \<open>2 * 65025\<close>, which wraps: \<open>lite\<close> comes out as
  511. For opaque white as source and destination, \<open>isLite\<close> is true and \<open>dark\<close> is
  \<open>2 * 65025\<close> wrapped to 64514.
\<close>

theorem Wide_fits_counterexample:
  "premul4 (DupPMColor (Px 0 0 0 255)) \<and>
   \<not> at (HardLight_isLite (DupPMColor (Px 0 0 0 255)) (DupPMColor (Px 0 0 0 255))) L0 B \<and>
   \<not> fits_shl1 (at (mul (sub (alphas (DupPMColor (Px 0 0 0 255))) (DupPMColor (Px 0 0 0 255)))
                        (sub (alphas (DupPMColor (Px 0 0 0 255))) (DupPMColor (Px 0 0 0 255))))
                   L0 B) \<and>
   at (HardLight_lite (DupPMColor (Px 0 0 0 255)) (DupPMColor (Px 0 0 0 255))) L0 B = 511 \<and>
   premul4 (DupPMColor (Px 255 255 255 255)) \<and>
   at (HardLight_isLite (DupPMColor (Px 255 255 255 255)) (DupPMColor (Px 255 255 255 255))) L0 B \<and>
   \<not> fits_shl1 (at (mul (DupPMColor (Px 255 255 255 255)) (DupPMColor (Px 255 255 255 255))) L0 B) \<and>
   at (HardLight_dark (DupPMColor (Px 255 255 255 255)) (DupPMColor (Px 255 255 255 255))) L0 B
     = 64514"
proof -
  have p: "premul4 (DupPMColor (Px 0 0 0 255))" "premul4 (DupPMColor (Px 255 255 255 255))"
    by (simp_all add: premul4_def premul_def DupPMColor_def)
  show ?thesis
    by (simp add: p HardLight_isLite_def HardLight_lite_def HardLight_dark_def fits_shl1_def
        at_ops)
qed

section \<open>The approximation made by \<^verbatim>\<open>approxMulDiv255\<close>\<close>

text \<open>
  The modelled \<^verbatim>\<open>approxMulDiv255\<close> meets the contract stated for it: it is exact when
  an operand is 0 or 255 (\<open>amd8_zero_left\<close>, \<open>amd8_zero_right\<close>, \<open>amd8_255_left\<close>,
  \<open>amd8_255_right\<close>) and within one of the rounded quotient everywhere; \<open>round255\<close> is
  the integer nearest to \<open>n / 255\<close>.
\<close>

lemma round255_nearest: "255 * round255 n \<le> n + 127 \<and> n \<le> 255 * round255 n + 127"
proof -
  obtain r where r: "r < 255" "n + 127 = 255 * round255 n + r"
    using round255_split by blast
  then show ?thesis by linarith
qed

lemma amd_nat_approx:
  assumes "x \<le> 255" "y \<le> (255::nat)"
  shows "(x * y + x) div 256 \<le> round255 (x * y) + 1"
    and "round255 (x * y) \<le> (x * y + x) div 256 + 1"
proof -
  let ?q = "round255 (x * y)"
  obtain r where r: "r < 255" "x * y + 127 = 255 * ?q + r"
    using round255_split by blast
  have "x * y + x < 256 * ?q + 512" using r assms(1) by linarith
  then have "x * y + x < (?q + 2) * 256" by simp
  then have "(x * y + x) div 256 < ?q + 2" by (rule less_mult_imp_div_less)
  then show "(x * y + x) div 256 \<le> ?q + 1" by simp
  have "x * y \<le> 255 * x" using assms(2) by (simp add: mult.commute)
  then have qx: "?q \<le> x" by (rule round255_le)
  have "256 * ?q \<le> (x * y + x) + 256" using r qx assms(1) by linarith
  then have "(256 * ?q) div 256 \<le> ((x * y + x) + 256) div 256" by (rule div_le_mono)
  then show "?q \<le> (x * y + x) div 256 + 1" by simp
qed

lemma amd8_approx:
  "unat (amd8 x y) \<le> round255 (unat x * unat y) + 1 \<and>
   round255 (unat x * unat y) \<le> unat (amd8 x y) + 1"
  using amd_nat_approx [OF u8_le [of x] u8_le [of y]] by (simp add: unat_amd8)

lemma shift_128_inexact: "(255 * 255 + 128) div 256 = (254::nat)"
  by simp

section \<open>The alpha channel of the result\<close>

lemma exact_modes_alpha:
  assumes "M \<in> set exact_alpha_modes"
  shows "int (unat (at (Xfer M s d) l A)) = union_alpha (at s l A) (at d l A)"
proof (rule union_alpha_nat)
  have o: "unat (at d l A + div255_16 (ucast (at s l A) * ucast (255 - at d l A)))
      = unat (at s l A) + unat (at d l A) - round255 (unat (at s l A) * unat (at d l A))"
    by (simp add: unat_over_alpha add.commute mult.commute)
  from assms consider "M = Multiply" | "M = Difference" | "M = HardLight" | "M = Overlay"
    | "M = Darken" | "M = Lighten"
    by (auto simp add: exact_alpha_modes_def)
  then show "unat (at (Xfer M s d) l A)
      = unat (at s l A) + unat (at d l A) - round255 (unat (at s l A) * unat (at d l A))"
  proof cases
    case 1 then show ?thesis by (simp add: at_ops unat_Multiply_alpha)
  next
    case 2 then show ?thesis using unat_Difference_alpha [of "at s l A" "at d l A"]
      by (simp add: at_ops Let_def)
  next
    case 3 then show ?thesis by (simp add: at_ops Let_def unat_over_alpha)
  next
    case 4 then show ?thesis by (simp add: at_ops Let_def o)
  next
    case 5 then show ?thesis by (simp add: at_ops Let_def unat_over_alpha)
  next
    case 6 then show ?thesis by (simp add: at_ops Let_def unat_over_alpha)
  qed
qed

lemma union_alpha_over: "union_alpha x y = int (unat x + round255 (unat y * (255 - unat x)))"
  using over_alpha_nat(1) [OF u8_le [of x] u8_le [of y]]
  by (rule union_alpha_nat [symmetric])

lemma union_alpha_commute: "union_alpha x y = union_alpha y x"
  by (simp add: union_alpha_def mult.commute)

lemma SrcOver_alpha_near:
  "\<bar>int (unat (x + amd8 y (255 - x))) - union_alpha x y\<bar> \<le> 1"
proof -
  have b: "unat x + unat (amd8 y (255 - x)) \<le> 255"
    using amd_nat_inv_le [of "unat x" "unat y"] u8_le [of x] u8_le [of y]
    by (simp add: unat_amd8 unat_inv8)
  have u: "unat (x + amd8 y (255 - x)) = unat x + unat (amd8 y (255 - x))"
    using b by (rule unat_add8_le [OF order_refl])
  have "unat (amd8 y (255 - x)) \<le> round255 (unat y * (255 - unat x)) + 1"
    and "round255 (unat y * (255 - unat x)) \<le> unat (amd8 y (255 - x)) + 1"
    using amd8_approx [of y "255 - x"] by (simp_all add: unat_inv8)
  then show ?thesis unfolding u union_alpha_over by linarith
qed

lemma Exclusion_alpha_near:
  "\<bar>int (unat ((x - amd8 x y) + y)) - union_alpha x y\<bar> \<le> 1"
proof -
  let ?p = "unat (amd8 x y)" and ?q = "round255 (unat x * unat y)"
  have pa: "?p \<le> unat x" using amd_nat_le_left [OF u8_le [of y]] by (simp add: unat_amd8)
  have al: "unat x + unat y \<le> 255 + ?p"
    using excl_nat_alpha [OF u8_le [of x] u8_le [of y]] by (simp add: unat_amd8)
  have qy: "?q \<le> unat y" using u8_le [of x] by (intro round255_le) simp
  have 1: "unat (x - amd8 x y) = unat x - ?p" using pa by (rule unat_sub8_fits)
  have "unat (x - amd8 x y) + unat y < 256" unfolding 1 using al pa by linarith
  then have u: "unat ((x - amd8 x y) + y) = (unat x - ?p) + unat y"
    unfolding 1 [symmetric] by (rule unat_add8_fits)
  have "?p \<le> ?q + 1" and "?q \<le> ?p + 1" using amd8_approx [of x y] by simp_all
  then show ?thesis unfolding u union_alpha_def using pa qy by linarith
qed

text \<open>
  C3, as the code has it. For the modes computed in exact arithmetic (Multiply,
  Difference, HardLight, Overlay, Darken and Lighten) the alpha channel of the result
  is \<open>sa + da - round (sa * da / 255)\<close> in every pixel. SrcOver, DstOver and
  Exclusion go through \<^verbatim>\<open>approxMulDiv255\<close> and their alpha is within one of that
  value.
\<close>

theorem exact_alpha:
  "(M \<in> set exact_alpha_modes \<longrightarrow>
      int (unat (at (Xfer M s d) l A)) = union_alpha (at s l A) (at d l A)) \<and>
   (M \<in> set approx_alpha_modes \<longrightarrow>
      \<bar>int (unat (at (Xfer M s d) l A)) - union_alpha (at s l A) (at d l A)\<bar> \<le> 1)"
proof (intro conjI impI)
  assume "M \<in> set approx_alpha_modes"
  then consider "M = SrcOver" | "M = DstOver" | "M = Exclusion"
    by (auto simp add: approx_alpha_modes_def)
  then show "\<bar>int (unat (at (Xfer M s d) l A)) - union_alpha (at s l A) (at d l A)\<bar> \<le> 1"
  proof cases
    case 1
    then show ?thesis using SrcOver_alpha_near [of "at s l A" "at d l A"]
      by (simp only: Xfer.simps at_ops)
  next
    case 2
    then show ?thesis using SrcOver_alpha_near [of "at d l A" "at s l A"]
      by (simp only: Xfer.simps at_ops union_alpha_commute [of "at s l A"])
  next
    case 3
    then show ?thesis using Exclusion_alpha_near [of "at s l A" "at d l A"]
      by (simp only: Exclusion_alpha_byte)
  qed
next
  assume "M \<in> set exact_alpha_modes"
  then show "int (unat (at (Xfer M s d) l A)) = union_alpha (at s l A) (at d l A)"
    by (rule exact_modes_alpha)
qed

theorem exact_alpha_witness:
  "HardLight \<in> set exact_alpha_modes \<and>
   union_alpha 128 128 = 192 \<and>
   int (unat (at (Xfer HardLight (DupPMColor (Px 10 20 30 128)) (DupPMColor (Px 1 2 3 128))) L0 A))
     = 192 \<and>
   SrcOver \<in> set approx_alpha_modes \<and>
   union_alpha 1 1 = 2 \<and>
   int (unat (at (Xfer SrcOver (DupPMColor (Px 0 0 0 1)) (DupPMColor (Px 0 0 0 1))) L0 A)) = 1"
proof -
  have a: "amd8 1 254 = 0" by (simp add: word_unat_eq_iff unat_amd8)
  show ?thesis
    using exact_alpha [of HardLight "DupPMColor (Px 10 20 30 128)" "DupPMColor (Px 1 2 3 128)" L0]
      exact_alpha [of SrcOver "DupPMColor (Px 0 0 0 1)" "DupPMColor (Px 0 0 0 1)" L0]
    by (simp add: exact_alpha_modes_def approx_alpha_modes_def union_alpha_def round255_def
        at_ops a)
qed

text \<open>
  C3 as it is written fails for the other ten modes it covers. With source and
  destination alpha 1 the claimed alpha is 2, but SrcIn, DstIn, SrcOut and DstOut give
  0 and SrcOver, DstOver, SrcATop and DstATop give 1; Xor of two opaque pixels gives 0,
  not 255; Exclusion with alphas 1 and 128 gives 129, not 128.
\<close>

theorem exact_alpha_counterexample:
  "premul4 (DupPMColor (Px 0 0 0 1)) \<and> premul4 (DupPMColor (Px 0 0 0 128)) \<and>
   premul4 (DupPMColor (Px 255 255 255 255)) \<and>
   int (unat (at (Xfer SrcIn (DupPMColor (Px 0 0 0 1)) (DupPMColor (Px 0 0 0 1))) L0 A))
     \<noteq> union_alpha (at (DupPMColor (Px 0 0 0 1)) L0 A) (at (DupPMColor (Px 0 0 0 1)) L0 A) \<and>
   int (unat (at (Xfer DstIn (DupPMColor (Px 0 0 0 1)) (DupPMColor (Px 0 0 0 1))) L0 A))
     \<noteq> union_alpha (at (DupPMColor (Px 0 0 0 1)) L0 A) (at (DupPMColor (Px 0 0 0 1)) L0 A) \<and>
   int (unat (at (Xfer SrcOut (DupPMColor (Px 0 0 0 1)) (DupPMColor (Px 0 0 0 1))) L0 A))
     \<noteq> union_alpha (at (DupPMColor (Px 0 0 0 1)) L0 A) (at (DupPMColor (Px 0 0 0 1)) L0 A) \<and>
   int (unat (at (Xfer DstOut (DupPMColor (Px 0 0 0 1)) (DupPMColor (Px 0 0 0 1))) L0 A))
     \<noteq> union_alpha (at (DupPMColor (Px 0 0 0 1)) L0 A) (at (DupPMColor (Px 0 0 0 1)) L0 A) \<and>
   int (unat (at (Xfer SrcOver (DupPMColor (Px 0 0 0 1)) (DupPMColor (Px 0 0 0 1))) L0 A))
     \<noteq> union_alpha (at (DupPMColor (Px 0 0 0 1)) L0 A) (at (DupPMColor (Px 0 0 0 1)) L0 A) \<and>
   int (unat (at (Xfer DstOver (DupPMColor (Px 0 0 0 1)) (DupPMColor (Px 0 0 0 1))) L0 A))
     \<noteq> union_alpha (at (DupPMColor (Px 0 0 0 1)) L0 A) (at (DupPMColor (Px 0 0 0 1)) L0 A) \<and>
   int (unat (at (Xfer SrcATop (DupPMColor (Px 0 0 0 1)) (DupPMColor (Px 0 0 0 1))) L0 A))
     \<noteq> union_alpha (at (DupPMColor (Px 0 0 0 1)) L0 A) (at (DupPMColor (Px 0 0 0 1)) L0 A) \<and>
   int (unat (at (Xfer DstATop (DupPMColor (Px 0 0 0 1)) (DupPMColor (Px 0 0 0 1))) L0 A))
     \<noteq> union_alpha (at (DupPMColor (Px 0 0 0 1)) L0 A) (at (DupPMColor (Px 0 0 0 1)) L0 A) \<and>
   int (unat (at (Xfer Xor (DupPMColor (Px 255 255 255 255)) (DupPMColor (Px 255 255 255 255))) L0 A))
     \<noteq> union_alpha (at (DupPMColor (Px 255 255 255 255)) L0 A)
          (at (DupPMColor (Px 255 255 255 255)) L0 A) \<and>
   int (unat (at (Xfer Exclusion (DupPMColor (Px 0 0 0 1)) (DupPMColor (Px 0 0 0 128))) L0 A))
     \<noteq> union_alpha (at (DupPMColor (Px 0 0 0 1)) L0 A) (at (DupPMColor (Px 0 0 0 128)) L0 A)"
proof -
  have u1: "union_alpha 1 1 = 2" and u2: "union_alpha 255 255 = 255"
    and u3: "union_alpha 1 128 = 128"
    by (simp_all add: union_alpha_def round255_def)
  have a1: "amd8 1 1 = 0" and a2: "amd8 1 254 = 0" and a3: "amd8 1 128 = 0"
    by (simp_all add: word_unat_eq_iff unat_amd8)
  have d1: "div255_16 255 = 1" and d2: "div255_16 0 = 0"
    by (simp_all add: div255_16_def round255_def)
  have p: "premul4 (DupPMColor (Px 0 0 0 1))" "premul4 (DupPMColor (Px 0 0 0 128))"
    "premul4 (DupPMColor (Px 255 255 255 255))"
    by (simp_all add: premul4_def premul_def DupPMColor_def)
  show ?thesis
    by (simp add: p at_ops Let_def u1 u2 u3 a1 a2 a3 d1 d2)
qed

end
